theory Spec2Isabelle
  imports Complex_Main "HOL-Library.Word"
begin

section \<open>Errors of the job\<close>

text \<open>
  The script \<^verbatim>\<open>etl.py\<close> has no \<^verbatim>\<open>try\<close>: every exception raised by the UDF or by
  the dataframe engine leaves \<^verbatim>\<open>main\<close>. The exceptions that \<^verbatim>\<open>main\<close> can meet are
  values of \<open>error\<close>: \<^verbatim>\<open>TypeError\<close> and \<^verbatim>\<open>ValueError\<close> from the UDF,
  \<^verbatim>\<open>AnalysisException\<close> from reading and writing. Lines 12 to 16, which read the
  credentials when the module is loaded, run before \<^verbatim>\<open>main\<close> and are not modelled.
\<close>

datatype error =
    TypeError string
  | ValueError string
  | AnalysisException string

section \<open>Timestamps: \<^verbatim>\<open>datetime.fromtimestamp\<close>\<close>

text \<open>
  A naive Python \<^verbatim>\<open>datetime\<close>: the calendar fields, no time zone attached.
\<close>

record datetime =
  dt_year :: int
  dt_month :: int
  dt_day :: int
  dt_hour :: int
  dt_minute :: int
  dt_second :: int
  dt_microsecond :: int

text \<open>
  The calendar arithmetic of the \<^verbatim>\<open>datetime\<close> module: proleptic Gregorian ordinals
  (day 1 is 0001-01-01) and the cycles of 400, 100, 4 and 1 years.
\<close>

definition is_leap :: "int \<Rightarrow> bool" where
  "is_leap y = (y mod 4 = 0 \<and> (y mod 100 \<noteq> 0 \<or> y mod 400 = 0))"

definition DAYS_IN_MONTH :: "int list" where
  "DAYS_IN_MONTH = [-1, 31, 28, 31, 30, 31, 30, 31, 31, 30, 31, 30, 31]"

definition DAYS_BEFORE_MONTH :: "int list" where
  "DAYS_BEFORE_MONTH = [-1, 0, 31, 59, 90, 120, 151, 181, 212, 243, 273, 304, 334]"

definition days_in_month :: "int \<Rightarrow> int \<Rightarrow> int" where
  "days_in_month y m = (if m = 2 \<and> is_leap y then 29 else DAYS_IN_MONTH ! nat m)"

definition days_before_year :: "int \<Rightarrow> int" where
  "days_before_year y = (let p = y - 1 in p * 365 + p div 4 - p div 100 + p div 400)"

definition days_before_month :: "int \<Rightarrow> int \<Rightarrow> int" where
  "days_before_month y m =
     DAYS_BEFORE_MONTH ! nat m + (if m > 2 \<and> is_leap y then 1 else 0)"

definition ymd2ord :: "int \<Rightarrow> int \<Rightarrow> int \<Rightarrow> int" where
  "ymd2ord y m d = days_before_year y + days_before_month y m + d"

text \<open>
  The month holding day \<open>n\<close> (counted from 0) of a year: an estimate that is at most
  one too large, then corrected. The result is the month and the days before it.
\<close>

definition month_of_yday :: "bool \<Rightarrow> int \<Rightarrow> int \<times> int" where
  "month_of_yday leapyear n =
     (let month = (n + 50) div 32;
          preceding = DAYS_BEFORE_MONTH ! nat month + (if month > 2 \<and> leapyear then 1 else 0)
      in if preceding > n
         then (month - 1,
               preceding - (DAYS_IN_MONTH ! nat (month - 1)
                            + (if month - 1 = 2 \<and> leapyear then 1 else 0)))
         else (month, preceding))"

definition ord2ymd :: "int \<Rightarrow> int \<times> int \<times> int" where
  "ord2ymd n0 =
     (let n = n0 - 1;
          n400 = n div 146097; n = n mod 146097;
          n100 = n div 36524; n = n mod 36524;
          n4 = n div 1461; n = n mod 1461;
          n1 = n div 365; n = n mod 365;
          y = n400 * 400 + 1 + n100 * 100 + n4 * 4 + n1
      in if n1 = 4 \<or> n100 = 4 then (y - 1, 12, 31)
         else
           (let leapyear = (n1 = 3 \<and> (n4 \<noteq> 24 \<or> n100 = 3));
                mp = month_of_yday leapyear n
            in (y, fst mp, n - snd mp + 1)))"

text \<open>
  Rounding to the nearest integer, a tie going to the even one: the rounding of
  IEEE 754 arithmetic, and the one \<^verbatim>\<open>fromtimestamp\<close> applies to the microseconds.
\<close>

definition py_round :: "rat \<Rightarrow> int" where
  "py_round q =
     (let f = \<lfloor>q\<rfloor>; r = q - of_int f
      in if r < 1 / 2 then f
         else if 1 / 2 < r then f + 1
         else if even f then f else f + 1)"

text \<open>
  IEEE 754 binary64, the \<^verbatim>\<open>float\<close> of Python. A finite double is held as the rational
  it denotes. \<open>bitlen n\<close> is the number of binary digits of \<open>n\<close>, \<open>exponent q\<close> the
  integer \<open>e\<close> with \<open>2^e \<le> |q| < 2^(e+1)\<close>. \<open>round_double\<close> rounds a rational to the
  nearest double, ties to the even significand: 53 significant bits, and the spacing
  of the subnormals below \<open>2^-1022\<close>. Overflow to infinity is not modelled: no
  operation of the script on a 64-bit \<^verbatim>\<open>ts\<close> comes near \<open>2^1024\<close>.
\<close>

function bitlen :: "int \<Rightarrow> int" where
  "bitlen n = (if n \<le> 0 then 0 else 1 + bitlen (n div 2))"
  by pat_completeness auto
termination
  by (relation "measure nat") auto

declare bitlen.simps [simp del]

definition exponent :: "rat \<Rightarrow> int" where
  "exponent q =
     (let c = bitlen (fst (quotient_of \<bar>q\<bar>)) - bitlen (snd (quotient_of \<bar>q\<bar>))
      in if 2 powi c \<le> \<bar>q\<bar> then c else c - 1)"

definition round_double :: "rat \<Rightarrow> rat" where
  "round_double q =
     (if q = 0 then 0
      else (let ulp = 2 powi (max (exponent q) (- 1022) - 52)
            in of_int (py_round (q / ulp)) * ulp))"

text \<open>
  \<^verbatim>\<open>x / 1000.0\<close> with an \<^verbatim>\<open>int\<close> on the left: the integer becomes a double, then the
  doubles are divided, and the quotient is rounded to a double.
\<close>

definition float_of_int :: "int \<Rightarrow> rat" where
  "float_of_int x = round_double (of_int x)"

definition truediv :: "rat \<Rightarrow> rat \<Rightarrow> rat" where
  "truediv a b = round_double (a / b)"

text \<open>
  A double timestamp becomes whole seconds and microseconds: the fraction given by
  \<^verbatim>\<open>modf\<close> (the integral part is truncated towards zero) is multiplied by 1e6 as a
  double and rounded half to even, then brought into the range from 0 to 999999.
\<close>

definition trunc :: "rat \<Rightarrow> int" where
  "trunc d = (if 0 \<le> d then \<lfloor>d\<rfloor> else \<lceil>d\<rceil>)"

definition timeval :: "rat \<Rightarrow> int \<times> int" where
  "timeval d =
     (let intpart = trunc d;
          floatpart = py_round (round_double ((d - of_int intpart) * 1000000))
      in if floatpart \<ge> 1000000 then (intpart + 1, floatpart - 1000000)
         else if floatpart < 0 then (intpart - 1, floatpart + 1000000)
         else (intpart, floatpart))"

text \<open>
  \<^verbatim>\<open>datetime.fromtimestamp(t)\<close>: \<open>t\<close> is in seconds since the epoch, and the result is
  the local wall-clock time. \<open>tz\<close> is the UTC offset, in seconds, of the time zone of
  the process (a fixed offset: daylight-saving changes are not modelled); \<open>tz = 0\<close> is a
  process running in UTC. Python refuses years outside 1..9999, for the result and for
  the local time 24 hours earlier, which it computes to detect a repeated hour; the
  message of the \<^verbatim>\<open>ValueError\<close>, which names the year, is shortened here.
\<close>

definition year_ok :: "int \<Rightarrow> bool" where
  "year_ok y = (1 \<le> y \<and> y \<le> 9999)"

definition fromtimestamp :: "int \<Rightarrow> rat \<Rightarrow> error + datetime" where
  "fromtimestamp tz t =
     (let tv = timeval t;
          s = fst tv + tz;
          us = snd tv;
          days = s div 86400;
          sod = s mod 86400;
          ymd = ord2ymd (days + 719163);
          probe = ord2ymd ((s - 86400) div 86400 + 719163)
      in if \<not> year_ok (fst ymd) then Inl (ValueError ''year is out of range'')
         else if \<not> year_ok (fst probe) then Inl (ValueError ''year is out of range'')
         else Inr \<lparr>dt_year = fst ymd, dt_month = fst (snd ymd), dt_day = snd (snd ymd),
                   dt_hour = sod div 3600, dt_minute = sod mod 3600 div 60,
                   dt_second = sod mod 60, dt_microsecond = us\<rparr>)"

text \<open>
  Line 114, the UDF \<^verbatim>\<open>lambda x: datetime.fromtimestamp((x/1000.0))\<close>. The column
  \<^verbatim>\<open>ts\<close> is nullable; on a null the lambda receives \<^verbatim>\<open>None\<close> and the division
  raises \<^verbatim>\<open>TypeError\<close>. Otherwise \<^verbatim>\<open>x\<close> is an \<^verbatim>\<open>int\<close> and the quotient a double.
\<close>

definition get_timestamp :: "int \<Rightarrow> int option \<Rightarrow> error + datetime" where
  "get_timestamp tz x =
     (case x of
        None \<Rightarrow> Inl (TypeError ''unsupported operand type(s) for /'')
      | Some ms \<Rightarrow> fromtimestamp tz (truediv (float_of_int ms) 1000))"

text \<open>
  The inverse reading of a naive datetime, as \<^verbatim>\<open>calendar.timegm\<close> computes it:
  microseconds since 1970-01-01T00:00:00 (ordinal 719163).
\<close>

definition epoch_us :: "datetime \<Rightarrow> int" where
  "epoch_us dt =
     (((ymd2ord (dt_year dt) (dt_month dt) (dt_day dt) - 719163) * 86400
        + dt_hour dt * 3600 + dt_minute dt * 60 + dt_second dt) * 1000000
      + dt_microsecond dt)"

definition valid_datetime :: "datetime \<Rightarrow> bool" where
  "valid_datetime dt =
     (1 \<le> dt_year dt \<and> dt_year dt \<le> 9999
      \<and> 1 \<le> dt_month dt \<and> dt_month dt \<le> 12
      \<and> 1 \<le> dt_day dt \<and> dt_day dt \<le> days_in_month (dt_year dt) (dt_month dt)
      \<and> 0 \<le> dt_hour dt \<and> dt_hour dt < 24
      \<and> 0 \<le> dt_minute dt \<and> dt_minute dt < 60
      \<and> 0 \<le> dt_second dt \<and> dt_second dt < 60
      \<and> 0 \<le> dt_microsecond dt \<and> dt_microsecond dt < 1000000)"

text \<open>
  What the calendar conversion has to deliver: \<open>month_ok\<close> for the month and the days
  before it found for day \<open>n\<close> of a year, \<open>date_ok\<close> for the date found for an ordinal.
\<close>

definition month_ok :: "bool \<Rightarrow> int \<Rightarrow> int \<times> int \<Rightarrow> bool" where
  "month_ok leapyear n mp =
     (1 \<le> fst mp \<and> fst mp \<le> 12
      \<and> snd mp = DAYS_BEFORE_MONTH ! nat (fst mp) + (if fst mp > 2 \<and> leapyear then 1 else 0)
      \<and> 0 \<le> n - snd mp
      \<and> n - snd mp < DAYS_IN_MONTH ! nat (fst mp) + (if fst mp = 2 \<and> leapyear then 1 else 0))"

definition date_ok :: "int \<Rightarrow> int \<times> int \<times> int \<Rightarrow> bool" where
  "date_ok n ymd =
     (case ymd of (y, m, d) \<Rightarrow>
        ymd2ord y m d = n \<and> 1 \<le> m \<and> m \<le> 12 \<and> 1 \<le> d \<and> d \<le> days_in_month y m)"

section \<open>\<^verbatim>\<open>date_format\<close>\<close>

text \<open>
  \<^verbatim>\<open>date_format(col, pattern)\<close> renders a timestamp with Java's
  \<^verbatim>\<open>SimpleDateFormat\<close> in the US locale (weeks start on Sunday, the first week of a
  period needs one day), as Spark 2 does, and returns a string column. The calendar
  fields are those of \<^verbatim>\<open>java.util.GregorianCalendar\<close>. The timestamp is rendered in
  the time zone of the session, taken to be the time zone of the Python process: the
  model reads the fields of the naive datetime that the UDF returned.
\<close>

definition digit_char :: "nat \<Rightarrow> char" where
  "digit_char d = ''0123456789'' ! d"

fun digits :: "nat \<Rightarrow> string" where
  "digits n = (if n < 10 then [digit_char n] else digits (n div 10) @ [digit_char (n mod 10)])"

declare digits.simps [simp del]

definition show_int :: "int \<Rightarrow> string" where
  "show_int i = (if i < 0 then CHR ''-'' # digits (nat (- i)) else digits (nat i))"

text \<open>
  Java counts days as fixed dates, the same proleptic Gregorian ordinals.
\<close>

definition fixed_date :: "datetime \<Rightarrow> int" where
  "fixed_date dt = ymd2ord (dt_year dt) (dt_month dt) (dt_day dt)"

definition day_of_year :: "datetime \<Rightarrow> int" where
  "day_of_year dt = days_before_month (dt_year dt) (dt_month dt) + dt_day dt"

text \<open>\<^verbatim>\<open>Calendar.DAY_OF_WEEK\<close>: 1 is Sunday, 7 is Saturday. Ordinal 1 was a Monday.\<close>

definition day_of_week :: "int \<Rightarrow> int" where
  "day_of_week fixedDate = fixedDate mod 7 + 1"

text \<open>Pattern letter \<^verbatim>\<open>u\<close>, the ISO day number of the week: 1 is Monday, 7 is Sunday.\<close>

definition iso_day_of_week :: "int \<Rightarrow> int" where
  "iso_day_of_week fixedDate = (fixedDate - 1) mod 7 + 1"

text \<open>
  \<^verbatim>\<open>GregorianCalendar.getWeekNumber(fixedDay1, fixedDate)\<close> with first day of week
  Sunday and one minimal day in the first week: \<open>fixedDay1st\<close> is the first Sunday on or
  after the first day of the period, moved back a week when the period starts later in
  the week.
\<close>

definition getWeekNumber :: "int \<Rightarrow> int \<Rightarrow> int" where
  "getWeekNumber fixedDay1 fixedDate =
     (let fixedDay1st = fixedDay1 + (7 - (day_of_week fixedDay1 - 1)) mod 7;
          ndays = fixedDay1st - fixedDay1;
          fixedDay1st' = (if ndays \<ge> 1 then fixedDay1st - 7 else fixedDay1st)
      in (fixedDate - fixedDay1st') div 7 + 1)"

definition week_of_month :: "datetime \<Rightarrow> int" where
  "week_of_month dt =
     getWeekNumber (ymd2ord (dt_year dt) (dt_month dt) 1) (fixed_date dt)"

text \<open>
  \<^verbatim>\<open>WEEK_OF_YEAR\<close>: the week number counted from 1 January, except that the last days
  of December belong to week 1 when the week they lie in contains the next 1 January.
\<close>

definition week_of_year :: "datetime \<Rightarrow> int" where
  "week_of_year dt =
     (let jan1 = ymd2ord (dt_year dt) 1 1;
          w = getWeekNumber jan1 (fixed_date dt)
      in if w \<ge> 52 then
           (let nextJan1 = ymd2ord (dt_year dt + 1) 1 1;
                nextJan1st = nextJan1 + (7 - (day_of_week nextJan1 - 1)) mod 7;
                ndays = nextJan1st - nextJan1
            in if ndays \<ge> 1 \<and> fixed_date dt \<ge> nextJan1st - 7 then 1 else w)
         else w)"

text \<open>\<^verbatim>\<open>DAY_OF_WEEK_IN_MONTH\<close> (pattern letter \<^verbatim>\<open>F\<close>): days 1 to 7 give 1, 8 to 14 give 2.\<close>

definition day_of_week_in_month :: "datetime \<Rightarrow> int" where
  "day_of_week_in_month dt = (dt_day dt - 1) div 7 + 1"

text \<open>
  The patterns are single letters, printed as plain numbers without padding. The script
  uses \<^verbatim>\<open>H\<close>, \<^verbatim>\<open>D\<close>, \<^verbatim>\<open>w\<close>, \<^verbatim>\<open>M\<close>, \<^verbatim>\<open>y\<close> and \<^verbatim>\<open>W\<close>; \<^verbatim>\<open>F\<close> and \<^verbatim>\<open>u\<close> are
  modelled beside them for comparison. Any other pattern is outside the model and
  gives \<open>None\<close>.
\<close>

definition date_format :: "datetime \<Rightarrow> string \<Rightarrow> string option" where
  "date_format dt fmt =
     (if fmt = ''H'' then Some (show_int (dt_hour dt))
      else if fmt = ''D'' then Some (show_int (day_of_year dt))
      else if fmt = ''w'' then Some (show_int (week_of_year dt))
      else if fmt = ''M'' then Some (show_int (dt_month dt))
      else if fmt = ''y'' then Some (show_int (dt_year dt))
      else if fmt = ''W'' then Some (show_int (week_of_month dt))
      else if fmt = ''F'' then Some (show_int (day_of_week_in_month dt))
      else if fmt = ''u'' then Some (show_int (iso_day_of_week (fixed_date dt)))
      else None)"

section \<open>Dataframes\<close>

text \<open>
  A dataframe is the list of its rows; a nullable column is an \<open>option\<close>. The records
  carry the columns the script names. The columns of JSON type double (\<open>duration\<close>,
  latitude, longitude) are only carried along, so their type is the parameter \<open>'d\<close>.
  Schema inference is not modelled: every input record has these columns.
\<close>

record 'd song_record =
  song_id :: "string option"
  title :: "string option"
  artist_id :: "string option"
  artist_name :: "string option"
  artist_location :: "string option"
  artist_latitude :: "'d option"
  artist_longitude :: "'d option"
  year :: "int option"
  duration :: "'d option"

text \<open>
  A log row. The column \<^verbatim>\<open>ts\<close> holds epoch milliseconds (\<open>int option\<close>) when read and
  a timestamp (\<open>datetime\<close>) after line 115, hence the type parameter \<open>'t\<close>.
\<close>

record 't log_record =
  page :: "string option"
  userId :: "string option"
  firstName :: "string option"
  lastName :: "string option"
  gender :: "string option"
  level :: "string option"
  song :: "string option"
  ts :: 't
  sessionId :: "int option"
  location :: "string option"
  userAgent :: "string option"

text \<open>The rows of the five output tables, one record per \<^verbatim>\<open>select\<close>.\<close>

record 'd songs_row =
  s_song_id :: "string option"
  s_title :: "string option"
  s_artist_id :: "string option"
  s_year :: "int option"
  s_duration :: "'d option"

record 'd artists_row =
  a_artist_id :: "string option"
  a_artist_name :: "string option"
  a_artist_location :: "string option"
  a_artist_latitude :: "'d option"
  a_artist_longitude :: "'d option"

record users_row =
  u_userId :: "string option"
  u_firstName :: "string option"
  u_lastName :: "string option"
  u_gender :: "string option"
  u_level :: "string option"

record time_row =
  t_start_time :: datetime
  t_hour :: "string option"
  t_day :: "string option"
  t_week :: "string option"
  t_month :: "string option"
  t_year :: "string option"
  t_weekday :: "string option"

record songplays_row =
  sp_start_time :: datetime
  sp_userId :: "string option"
  sp_level :: "string option"
  sp_song_id :: "string option"
  sp_artist_id :: "string option"
  sp_sessionId :: "int option"
  sp_location :: "string option"
  sp_userAgent :: "string option"
  sp_year :: "string option"
  sp_month :: "string option"
  sp_songplay_id :: "64 word"

subsection \<open>The operations of the engine\<close>

text \<open>
  A comparison of columns follows SQL: it is true only when both sides are non-null and
  equal. \<^verbatim>\<open>filter\<close> and \<^verbatim>\<open>join\<close> keep the rows where the condition is true.
\<close>

definition sql_eq :: "'a option \<Rightarrow> 'a option \<Rightarrow> bool" where
  "sql_eq a b = (case a of None \<Rightarrow> False | Some x \<Rightarrow> (case b of None \<Rightarrow> False | Some y \<Rightarrow> x = y))"

text \<open>
  \<^verbatim>\<open>dropDuplicates([key])\<close> keeps one row for each value of the key column (null is a
  value like the others). Which row of a group survives is the engine's choice: \<open>pick\<close>
  gives its index in the group. The engine does not fix the order of the rows of a
  result either; the model lists them in one order, and no property below depends on it.
\<close>

definition dropDuplicates :: "('r list \<Rightarrow> nat) \<Rightarrow> ('r \<Rightarrow> 'k) \<Rightarrow> 'r list \<Rightarrow> 'r list" where
  "dropDuplicates pick key df =
     map (\<lambda>k. let g = filter (\<lambda>r. key r = k) df in g ! (pick g mod length g))
         (remdups (map key df))"

definition dropna :: "('r \<Rightarrow> 'k option) \<Rightarrow> 'r list \<Rightarrow> 'r list" where
  "dropna key df = filter (\<lambda>r. key r \<noteq> None) df"

text \<open>The inner join: every pair of a left and a right row that satisfies the condition.\<close>

definition join_df :: "('l \<Rightarrow> 'r \<Rightarrow> bool) \<Rightarrow> 'l list \<Rightarrow> 'r list \<Rightarrow> ('l \<times> 'r) list" where
  "join_df on left right = concat (map (\<lambda>l. map (Pair l) (filter (on l) right)) left)"

text \<open>
  \<^verbatim>\<open>monotonically_increasing_id()\<close>: the partition index in the upper 31 bits and the
  number of the row inside its partition in the lower 33 bits of a 64-bit integer.
  \<open>part i\<close> is the partition the engine puts row \<open>i\<close> in; rows keep their order inside a
  partition.
\<close>

definition row_in_partition :: "(nat \<Rightarrow> nat) \<Rightarrow> nat \<Rightarrow> nat" where
  "row_in_partition part i = length (filter (\<lambda>j. part j = part i) [0..<i])"

definition monotonically_increasing_id :: "(nat \<Rightarrow> nat) \<Rightarrow> nat \<Rightarrow> 64 word" where
  "monotonically_increasing_id part i =
     push_bit 33 (word_of_nat (part i)) + word_of_nat (row_in_partition part i)"

text \<open>
  The session: its configuration, and what the cluster behind it decides for the job
  (time zone, surviving duplicates, partitioning of the joined rows).
\<close>

record 'd cluster =
  tz :: int
  pick_songs :: "'d songs_row list \<Rightarrow> nat"
  pick_artists :: "'d artists_row list \<Rightarrow> nat"
  pick_users :: "users_row list \<Rightarrow> nat"
  part :: "nat \<Rightarrow> nat"

record 'd spark_session =
  conf :: "(string \<times> string) list"
  engine :: "'d cluster"

definition create_spark_session :: "'d cluster \<Rightarrow> 'd spark_session" where
  "create_spark_session c =
     \<lparr>conf = [(''spark.jars.packages'', ''org.apache.hadoop:hadoop-aws:2.7.5'')],
      engine = c\<rparr>"

subsection \<open>Storage\<close>

datatype 'd table =
    SongsTable "'d songs_row list"
  | ArtistsTable "'d artists_row list"
  | UsersTable "users_row list"
  | TimeTable "time_row list"
  | SongplaysTable "songplays_row list"

record 'd parquet =
  partitionBy :: "string list"
  rows :: "'d table"

text \<open>
  The object store: the JSON datasets found under a path pattern, and the parquet
  datasets written so far, in the order of writing.
\<close>

record 'd storage =
  json_songs :: "(string \<times> 'd song_record list) list"
  json_logs :: "(string \<times> (int option) log_record list) list"
  written :: "(string \<times> 'd parquet) list"

definition path_join :: "string \<Rightarrow> string \<Rightarrow> string" where
  "path_join a b =
     (if b \<noteq> [] \<and> hd b = CHR ''/'' then b
      else if a = [] \<or> last a = CHR ''/'' then a @ b
      else a @ ''/'' @ b)"

definition load_songs :: "'d storage \<Rightarrow> string \<Rightarrow> error + 'd song_record list" where
  "load_songs st path =
     (case map_of (json_songs st) path of
        None \<Rightarrow> Inl (AnalysisException ''Path does not exist'')
      | Some df \<Rightarrow> Inr df)"

definition load_logs :: "'d storage \<Rightarrow> string \<Rightarrow> error + (int option) log_record list" where
  "load_logs st path =
     (case map_of (json_logs st) path of
        None \<Rightarrow> Inl (AnalysisException ''Path does not exist'')
      | Some df \<Rightarrow> Inr df)"

text \<open>
  \<^verbatim>\<open>df.write[.partitionBy(cols)].parquet(path)\<close>. No save mode is set, so the writer
  refuses a path that exists. The dataframe is lazy: its rows are computed by this
  action, and an error of the UDF surfaces here.
\<close>

definition write_parquet ::
  "string list \<Rightarrow> string \<Rightarrow> error + 'd table \<Rightarrow> 'd storage \<Rightarrow> error + 'd storage" where
  "write_parquet cols path df st =
     (if map_of (written st) path \<noteq> None
      then Inl (AnalysisException ''path already exists'')
      else case df of
             Inl e \<Rightarrow> Inl e
           | Inr t \<Rightarrow> Inr (st\<lparr>written := written st @ [(path, \<lparr>partitionBy = cols, rows = t\<rparr>)]\<rparr>))"

text \<open>How a function of the script ends: normally, or by an exception; both leave a store.\<close>

datatype 'd outcome = Done "'d storage" | Raised error "'d storage"

section \<open>\<^verbatim>\<open>process_song_data\<close>\<close>

definition select_song_columns :: "'d song_record \<Rightarrow> 'd songs_row" where
  "select_song_columns r =
     \<lparr>s_song_id = song_id r, s_title = title r, s_artist_id = artist_id r,
      s_year = year r, s_duration = duration r\<rparr>"

definition select_artist_columns :: "'d song_record \<Rightarrow> 'd artists_row" where
  "select_artist_columns r =
     \<lparr>a_artist_id = artist_id r, a_artist_name = artist_name r,
      a_artist_location = artist_location r, a_artist_latitude = artist_latitude r,
      a_artist_longitude = artist_longitude r\<rparr>"

text \<open>Lines 52 to 57.\<close>

definition songs_table :: "'d spark_session \<Rightarrow> 'd song_record list \<Rightarrow> 'd songs_row list" where
  "songs_table spark df_song =
     (let songs_table = map select_song_columns df_song;
          songs_table = dropDuplicates (pick_songs (engine spark)) s_song_id songs_table;
          songs_table = dropna s_song_id songs_table
      in songs_table)"

text \<open>Lines 65 to 70.\<close>

definition artists_table :: "'d spark_session \<Rightarrow> 'd song_record list \<Rightarrow> 'd artists_row list" where
  "artists_table spark df_song =
     (let artists_table = map select_artist_columns df_song;
          artists_table = dropDuplicates (pick_artists (engine spark)) a_artist_id artists_table;
          artists_table = dropna a_artist_id artists_table
      in artists_table)"

definition process_song_data ::
  "'d spark_session \<Rightarrow> string \<Rightarrow> string \<Rightarrow> 'd storage \<Rightarrow> 'd outcome" where
  "process_song_data spark input_data output_data st =
     (let song_path = path_join input_data ''song_data/*/*/*''
      in case load_songs st song_path of
           Inl e \<Rightarrow> Raised e st
         | Inr df_song \<Rightarrow>
             (case write_parquet [''artist_id'', ''year'']
                     (path_join output_data ''songs_table_parquet'')
                     (Inr (SongsTable (songs_table spark df_song))) st of
                Inl e \<Rightarrow> Raised e st
              | Inr st1 \<Rightarrow>
                  (case write_parquet [] (path_join output_data ''artist_table_parquet'')
                          (Inr (ArtistsTable (artists_table spark df_song))) st1 of
                     Inl e \<Rightarrow> Raised e st1
                   | Inr st2 \<Rightarrow> Done st2)))"

section \<open>\<^verbatim>\<open>process_log_data\<close>\<close>

text \<open>Line 101: \<^verbatim>\<open>df.filter(df["page"] == 'NextSong')\<close>.\<close>

definition nextsong :: "'t log_record list \<Rightarrow> 't log_record list" where
  "nextsong df = filter (\<lambda>r. sql_eq (page r) (Some ''NextSong'')) df"

definition select_user_columns :: "'t log_record \<Rightarrow> users_row" where
  "select_user_columns r =
     \<lparr>u_userId = userId r, u_firstName = firstName r, u_lastName = lastName r,
      u_gender = gender r, u_level = level r\<rparr>"

text \<open>Lines 103 to 108, on the filtered dataframe.\<close>

definition user_table :: "'d spark_session \<Rightarrow> 't log_record list \<Rightarrow> users_row list" where
  "user_table spark df =
     (let user_table = map select_user_columns df;
          user_table = dropDuplicates (pick_users (engine spark)) u_userId user_table;
          user_table = dropna u_userId user_table
      in user_table)"

text \<open>
  Lines 114 to 116: the column \<^verbatim>\<open>ts\<close> is replaced by the value of the UDF and renamed
  \<^verbatim>\<open>start_time\<close>. The first row on which the UDF raises fails the action that
  computes the column.
\<close>

definition withColumn_ts :: "'a log_record \<Rightarrow> 'b \<Rightarrow> 'b log_record" where
  "withColumn_ts r v =
     \<lparr>page = page r, userId = userId r, firstName = firstName r, lastName = lastName r,
      gender = gender r, level = level r, song = song r, ts = v, sessionId = sessionId r,
      location = location r, userAgent = userAgent r\<rparr>"

definition start_time :: "datetime log_record \<Rightarrow> datetime" where
  "start_time r = ts r"

fun collect :: "(error + 'a) list \<Rightarrow> error + 'a list" where
  "collect [] = Inr []"
| "collect (x # xs) =
     (case x of
        Inl e \<Rightarrow> Inl e
      | Inr v \<Rightarrow> (case collect xs of Inl e \<Rightarrow> Inl e | Inr vs \<Rightarrow> Inr (v # vs)))"

definition with_start_time ::
  "'d spark_session \<Rightarrow> (int option) log_record list \<Rightarrow> error + datetime log_record list" where
  "with_start_time spark df =
     collect (map (\<lambda>r. case get_timestamp (tz (engine spark)) (ts r) of
                          Inl e \<Rightarrow> Inl e
                        | Inr v \<Rightarrow> Inr (withColumn_ts r v)) df)"

text \<open>Lines 120 to 125.\<close>

definition time_table :: "datetime log_record list \<Rightarrow> time_row list" where
  "time_table df =
     map (\<lambda>r. \<lparr>t_start_time = start_time r,
               t_hour = date_format (start_time r) ''H'',
               t_day = date_format (start_time r) ''D'',
               t_week = date_format (start_time r) ''w'',
               t_month = date_format (start_time r) ''M'',
               t_year = date_format (start_time r) ''y'',
               t_weekday = date_format (start_time r) ''W''\<rparr>) df"

text \<open>Lines 139 and 140: the join on \<^verbatim>\<open>log_df.song == song_df.title\<close> and the projection.\<close>

definition select_songplay_columns ::
  "datetime log_record \<times> 'd song_record \<Rightarrow> 64 word \<Rightarrow> songplays_row" where
  "select_songplay_columns j =
     (\<lambda>i. \<lparr>sp_start_time = start_time (fst j), sp_userId = userId (fst j),
           sp_level = level (fst j), sp_song_id = song_id (snd j),
           sp_artist_id = artist_id (snd j), sp_sessionId = sessionId (fst j),
           sp_location = location (fst j), sp_userAgent = userAgent (fst j),
           sp_year = date_format (start_time (fst j)) ''y'',
           sp_month = date_format (start_time (fst j)) ''M'',
           sp_songplay_id = i\<rparr>)"

text \<open>Lines 137 to 142.\<close>

definition songplays_table ::
  "'d spark_session \<Rightarrow> datetime log_record list \<Rightarrow> 'd song_record list \<Rightarrow> songplays_row list" where
  "songplays_table spark log_df song_df =
     (let joined = join_df (\<lambda>l s. sql_eq (song l) (title s)) log_df song_df
      in map (\<lambda>i. select_songplay_columns (joined ! i)
                    (monotonically_increasing_id (part (engine spark)) i))
             [0..<length joined])"

definition process_log_data ::
  "'d spark_session \<Rightarrow> string \<Rightarrow> string \<Rightarrow> 'd storage \<Rightarrow> 'd outcome" where
  "process_log_data spark input_data output_data st =
     (let log_data = path_join input_data ''log_data/*/*''
      in case load_logs st log_data of
           Inl e \<Rightarrow> Raised e st
         | Inr df0 \<Rightarrow>
             (let df = nextsong df0
              in case write_parquet [] (path_join output_data ''user_table_parquet'')
                        (Inr (UsersTable (user_table spark df))) st of
                   Inl e \<Rightarrow> Raised e st
                 | Inr st1 \<Rightarrow>
                     (let df = with_start_time spark df
                      in case write_parquet [] (path_join output_data ''time_table_parquet'')
                                (map_sum id (\<lambda>df. TimeTable (time_table df)) df) st1 of
                           Inl e \<Rightarrow> Raised e st1
                         | Inr st2 \<Rightarrow>
                             (let song_path = path_join input_data ''song_data/*/*/*''
                              in case load_songs st2 song_path of
                                   Inl e \<Rightarrow> Raised e st2
                                 | Inr song_df \<Rightarrow>
                                     (case write_parquet [''year'', ''month'']
                                             (path_join output_data ''songplay_table_parquet'')
                                             (map_sum id
                                                (\<lambda>df. SongplaysTable (songplays_table spark df song_df))
                                                df) st2 of
                                        Inl e \<Rightarrow> Raised e st2
                                      | Inr st3 \<Rightarrow> Done st3)))))"

section \<open>\<^verbatim>\<open>main\<close>\<close>

definition main :: "'d cluster \<Rightarrow> 'd storage \<Rightarrow> 'd outcome" where
  "main c st =
     (let spark = create_spark_session c;
          input_data = ''s3a://udacity-dend/'';
          output_data = ''analytics''
      in case process_log_data spark input_data output_data st of
           Raised e st' \<Rightarrow> Raised e st'
         | Done st' \<Rightarrow> process_song_data spark input_data output_data st')"

text \<open>The exit status of the interpreter: 1 when an exception leaves \<^verbatim>\<open>main\<close>.\<close>

definition exit_status :: "'d outcome \<Rightarrow> nat" where
  "exit_status r = (case r of Done _ \<Rightarrow> 0 | Raised _ _ \<Rightarrow> 1)"

text \<open>
  How a row of the log dataframe after line 116 relates to the row it was computed from:
  \<^verbatim>\<open>start_time\<close> is the value of the UDF on \<^verbatim>\<open>ts\<close>, the other columns are unchanged.
\<close>

definition converted :: "int \<Rightarrow> (int option) log_record \<Rightarrow> datetime log_record \<Rightarrow> bool" where
  "converted z r0 r =
     (get_timestamp z (ts r0) = Inr (start_time r)
      \<and> page r = page r0 \<and> userId r = userId r0 \<and> firstName r = firstName r0
      \<and> lastName r = lastName r0 \<and> gender r = gender r0 \<and> level r = level r0
      \<and> song r = song r0 \<and> sessionId r = sessionId r0 \<and> location r = location r0
      \<and> userAgent r = userAgent r0)"

text \<open>What a run leaves behind: the exception, if any, and the datasets written.\<close>

definition result :: "'d outcome \<Rightarrow> error option \<times> (string \<times> 'd parquet) list" where
  "result r = (case r of Done st \<Rightarrow> (None, written st) | Raised e st \<Rightarrow> (Some e, written st))"

text \<open>
  The unique-non-null-key property of a table \<open>t\<close> with key column \<open>key\<close>, for the keys
  \<open>ids\<close> of the input records: no two rows share a key, no row has a null key, and every
  non-null key of the input is the key of exactly one row.
\<close>

definition unique_key :: "('r \<Rightarrow> 'k option) \<Rightarrow> 'k option list \<Rightarrow> 'r list \<Rightarrow> bool" where
  "unique_key key ids t =
     (distinct (map key t) \<and> None \<notin> set (map key t)
      \<and> (\<forall>k \<in> set ids. k \<noteq> None \<longrightarrow> length (filter (\<lambda>r. key r = k) t) = 1))"

section \<open>Example inputs\<close>

text \<open>
  A cluster in UTC that keeps the first row of every group of duplicates and deals the
  joined rows to two partitions in turn; a log event and a song record with the columns
  that matter filled in.
\<close>

definition utc_cluster :: "unit cluster" where
  "utc_cluster =
     \<lparr>tz = 0, pick_songs = (\<lambda>g. 0), pick_artists = (\<lambda>g. 0), pick_users = (\<lambda>g. 0),
      part = (\<lambda>i. i mod 2)\<rparr>"

definition log_event ::
  "string \<Rightarrow> string option \<Rightarrow> string option \<Rightarrow> 't \<Rightarrow> 't log_record" where
  "log_event p u s t =
     \<lparr>page = Some p, userId = u, firstName = Some ''Ryan'', lastName = Some ''Smith'',
      gender = Some ''M'', level = Some ''free'', song = s, ts = t, sessionId = Some 583,
      location = Some ''San Jose-Sunnyvale-Santa Clara, CA'', userAgent = Some ''Mozilla/5.0''\<rparr>"

definition song_meta :: "string option \<Rightarrow> string option \<Rightarrow> string option \<Rightarrow> unit song_record" where
  "song_meta i t a =
     \<lparr>song_id = i, title = t, artist_id = a, artist_name = Some ''Elena'',
      artist_location = Some ''Dubai UAE'', artist_latitude = None, artist_longitude = None,
      year = Some 0, duration = None\<rparr>"

definition example_store :: "unit storage" where
  "example_store =
     \<lparr>json_songs =
        [(''s3a://udacity-dend/song_data/*/*/*'',
          [song_meta (Some ''SOZCTXZ12AB0182364'') (Some ''Setanta matins'') (Some ''AR5KOSW1187FB35FF4''),
           song_meta None (Some ''Untitled'') None])],
      json_logs =
        [(''s3a://udacity-dend/log_data/*/*'',
          [log_event ''NextSong'' (Some ''26'') (Some ''Setanta matins'') (Some 1542241826796),
           log_event ''Home'' (Some ''27'') None None])],
      written = []\<rparr>"

text \<open>
  A cluster that puts the first 2^33 + 1 joined rows in partition 0 and the rest in
  partition 1.
\<close>

definition skewed_cluster :: "unit cluster" where
  "skewed_cluster =
     \<lparr>tz = 0, pick_songs = (\<lambda>g. 0), pick_artists = (\<lambda>g. 0), pick_users = (\<lambda>g. 0),
      part = (\<lambda>i. if i \<le> 8589934592 then 0 else 1)\<rparr>"

text \<open>2018-11-15T00:30:26.796 and Sunday 2018-11-04T12:00:00.\<close>

definition nov15 :: datetime where
  "nov15 = \<lparr>dt_year = 2018, dt_month = 11, dt_day = 15, dt_hour = 0, dt_minute = 30,
            dt_second = 26, dt_microsecond = 796000\<rparr>"

definition nov4 :: datetime where
  "nov4 = \<lparr>dt_year = 2018, dt_month = 11, dt_day = 4, dt_hour = 12, dt_minute = 0,
           dt_second = 0, dt_microsecond = 0\<rparr>"

section \<open>The calendar conversion is correct\<close>

lemma div_split: "0 \<le> b \<Longrightarrow> b < c \<Longrightarrow> (b + c * k) div c = (k::int)"
  by simp

lemma mod_shift: "(a + c * k) mod c = a mod (c::int)"
  by simp

lemma month_estimate:
  assumes "0 \<le> (n::int)" "n < 366"
  obtains k where "(n + 50) div 32 = k" "1 \<le> k" "k \<le> 12" "32 * k \<le> n + 50" "n + 18 < 32 * k"
proof -
  define k where "k = (n + 50) div 32"
  have "1 \<le> k" "k \<le> 12" "32 * k \<le> n + 50" "n + 18 < 32 * k"
    unfolding k_def using assms by arith+
  then show ?thesis using that k_def by blast
qed

lemma month_of_yday_ok:
  assumes "0 \<le> n" "n < (if leapyear then 366 else 365)"
  shows "month_ok leapyear n (month_of_yday leapyear n)"
proof -
  have b: "n < 366" using assms by (simp split: if_splits)
  from month_estimate [OF assms(1) b]
  obtain k where k: "(n + 50) div 32 = k" "1 \<le> k" "k \<le> 12" "32 * k \<le> n + 50" "n + 18 < 32 * k"
    by blast
  from k(2,3) have "k = 1 \<or> k = 2 \<or> k = 3 \<or> k = 4 \<or> k = 5 \<or> k = 6
    \<or> k = 7 \<or> k = 8 \<or> k = 9 \<or> k = 10 \<or> k = 11 \<or> k = 12"
    by arith
  then consider "k = 1" | "k = 2" | "k = 3" | "k = 4" | "k = 5" | "k = 6"
    | "k = 7" | "k = 8" | "k = 9" | "k = 10" | "k = 11" | "k = 12"
    by blast
  then show ?thesis
  proof cases
    case 1 then show ?thesis using assms k(4,5) unfolding month_ok_def month_of_yday_def Let_def k(1)
      by (simp add: DAYS_BEFORE_MONTH_def DAYS_IN_MONTH_def split: if_splits)
  next
    case 2 then show ?thesis using assms k(4,5) unfolding month_ok_def month_of_yday_def Let_def k(1)
      by (simp add: DAYS_BEFORE_MONTH_def DAYS_IN_MONTH_def split: if_splits)
  next
    case 3 then show ?thesis using assms k(4,5) unfolding month_ok_def month_of_yday_def Let_def k(1)
      by (simp add: DAYS_BEFORE_MONTH_def DAYS_IN_MONTH_def split: if_splits)
  next
    case 4 then show ?thesis using assms k(4,5) unfolding month_ok_def month_of_yday_def Let_def k(1)
      by (simp add: DAYS_BEFORE_MONTH_def DAYS_IN_MONTH_def split: if_splits)
  next
    case 5 then show ?thesis using assms k(4,5) unfolding month_ok_def month_of_yday_def Let_def k(1)
      by (simp add: DAYS_BEFORE_MONTH_def DAYS_IN_MONTH_def split: if_splits)
  next
    case 6 then show ?thesis using assms k(4,5) unfolding month_ok_def month_of_yday_def Let_def k(1)
      by (simp add: DAYS_BEFORE_MONTH_def DAYS_IN_MONTH_def split: if_splits)
  next
    case 7 then show ?thesis using assms k(4,5) unfolding month_ok_def month_of_yday_def Let_def k(1)
      by (simp add: DAYS_BEFORE_MONTH_def DAYS_IN_MONTH_def split: if_splits)
  next
    case 8 then show ?thesis using assms k(4,5) unfolding month_ok_def month_of_yday_def Let_def k(1)
      by (simp add: DAYS_BEFORE_MONTH_def DAYS_IN_MONTH_def split: if_splits)
  next
    case 9 then show ?thesis using assms k(4,5) unfolding month_ok_def month_of_yday_def Let_def k(1)
      by (simp add: DAYS_BEFORE_MONTH_def DAYS_IN_MONTH_def split: if_splits)
  next
    case 10 then show ?thesis using assms k(4,5) unfolding month_ok_def month_of_yday_def Let_def k(1)
      by (simp add: DAYS_BEFORE_MONTH_def DAYS_IN_MONTH_def split: if_splits)
  next
    case 11 then show ?thesis using assms k(4,5) unfolding month_ok_def month_of_yday_def Let_def k(1)
      by (simp add: DAYS_BEFORE_MONTH_def DAYS_IN_MONTH_def split: if_splits)
  next
    case 12 then show ?thesis using assms k(4,5) unfolding month_ok_def month_of_yday_def Let_def k(1)
      by (simp add: DAYS_BEFORE_MONTH_def DAYS_IN_MONTH_def split: if_splits)
  qed
qed


lemma days_before_year_cycles:
  assumes "0 \<le> n100" "n100 \<le> 3" "0 \<le> n4" "n4 \<le> 24" "0 \<le> n1" "n1 \<le> 3"
  shows "days_before_year (n400 * 400 + 1 + n100 * 100 + n4 * 4 + n1)
           = 146097 * n400 + 36524 * n100 + 1461 * n4 + 365 * n1"
proof -
  define p where "p = n400 * 400 + n100 * 100 + n4 * 4 + n1"
  have "p = n1 + 4 * (100 * n400 + 25 * n100 + n4)" by (simp add: p_def)
  moreover have "0 \<le> n1" "n1 < 4" using assms by simp_all
  ultimately have d4: "p div 4 = 100 * n400 + 25 * n100 + n4" by (simp only: div_split)
  have "p = (n4 * 4 + n1) + 100 * (4 * n400 + n100)" by (simp add: p_def)
  moreover have "0 \<le> n4 * 4 + n1" "n4 * 4 + n1 < 100" using assms by simp_all
  ultimately have d100: "p div 100 = 4 * n400 + n100" by (simp only: div_split)
  have "p = (n100 * 100 + n4 * 4 + n1) + 400 * n400" by (simp add: p_def)
  moreover have "0 \<le> n100 * 100 + n4 * 4 + n1" "n100 * 100 + n4 * 4 + n1 < 400"
    using assms by simp_all
  ultimately have d400: "p div 400 = n400" by (simp only: div_split)
  have "days_before_year (p + 1) = p * 365 + p div 4 - p div 100 + p div 400"
    by (simp add: days_before_year_def)
  also have "\<dots> = 146097 * n400 + 36524 * n100 + 1461 * n4 + 365 * n1"
    unfolding d4 d100 d400 by (simp add: p_def)
  finally show ?thesis by (simp add: p_def add.commute add.left_commute)
qed

lemma is_leap_cycles:
  assumes "0 \<le> n100" "n100 \<le> 3" "0 \<le> n4" "n4 \<le> 24" "0 \<le> n1" "n1 \<le> 3"
  shows "is_leap (n400 * 400 + 1 + n100 * 100 + n4 * 4 + n1)
           = (n1 = 3 \<and> (n4 \<noteq> 24 \<or> n100 = 3))"
proof -
  define y where "y = n400 * 400 + 1 + n100 * 100 + n4 * 4 + n1"
  have "y = (n1 + 1) + 4 * (100 * n400 + 25 * n100 + n4)" by (simp add: y_def)
  then have m4: "y mod 4 = (n1 + 1) mod 4" by (simp only: mod_shift)
  have "y = (n4 * 4 + n1 + 1) + 100 * (4 * n400 + n100)" by (simp add: y_def)
  then have m100: "y mod 100 = (n4 * 4 + n1 + 1) mod 100" by (simp only: mod_shift)
  have "y = (n100 * 100 + n4 * 4 + n1 + 1) + 400 * n400" by (simp add: y_def)
  then have m400: "y mod 400 = (n100 * 100 + n4 * 4 + n1 + 1) mod 400" by (simp only: mod_shift)
  have L4: "(y mod 4 = 0) = (n1 = 3)"
  proof (cases "n1 = 3")
    case True then show ?thesis unfolding m4 by simp
  next
    case False
    then have "0 \<le> n1 + 1" "n1 + 1 < 4" using assms(5,6) by simp_all
    then have "(n1 + 1) mod 4 = n1 + 1" by simp
    then show ?thesis unfolding m4 using False assms(5) by simp
  qed
  have L100: "(y mod 100 = 0) = (n4 = 24)" if "n1 = 3"
  proof (cases "n4 = 24")
    case True then show ?thesis unfolding m100 using that by simp
  next
    case False
    then have "0 \<le> n4 * 4 + n1 + 1" "n4 * 4 + n1 + 1 < 100" using assms(3,4) that by simp_all
    then have "(n4 * 4 + n1 + 1) mod 100 = n4 * 4 + n1 + 1" by simp
    then show ?thesis unfolding m100 using False assms(3) that by simp
  qed
  have L400: "(y mod 400 = 0) = (n100 = 3)" if "n1 = 3" "n4 = 24"
  proof (cases "n100 = 3")
    case True then show ?thesis unfolding m400 using that by simp
  next
    case False
    then have "0 \<le> n100 * 100 + n4 * 4 + n1 + 1" "n100 * 100 + n4 * 4 + n1 + 1 < 400"
      using assms(1,2) that by simp_all
    then have "(n100 * 100 + n4 * 4 + n1 + 1) mod 400 = n100 * 100 + n4 * 4 + n1 + 1" by simp
    then show ?thesis unfolding m400 using False assms(1) that by simp
  qed
  show ?thesis unfolding is_leap_def y_def [symmetric] using L4 L100 L400
    by (cases "n1 = 3"; cases "n4 = 24"; simp)
qed

lemma ord2ymd_cycles:
  obtains n400 n100 n4 n1 r3 where
    "n - 1 = 146097 * n400 + 36524 * n100 + 1461 * n4 + 365 * n1 + r3"
    "0 \<le> n100" "n100 \<le> 4" "0 \<le> n4" "n4 \<le> 24" "0 \<le> n1" "n1 \<le> 4" "0 \<le> r3" "r3 < 365"
    "36524 * n100 + 1461 * n4 + 365 * n1 + r3 < 146097"
    "1461 * n4 + 365 * n1 + r3 < 36524"
    "365 * n1 + r3 < 1461"
    "ord2ymd n =
       (if n1 = 4 \<or> n100 = 4 then (n400 * 400 + 1 + n100 * 100 + n4 * 4 + n1 - 1, 12, 31)
        else (n400 * 400 + 1 + n100 * 100 + n4 * 4 + n1,
              fst (month_of_yday (n1 = 3 \<and> (n4 \<noteq> 24 \<or> n100 = 3)) r3),
              r3 - snd (month_of_yday (n1 = 3 \<and> (n4 \<noteq> 24 \<or> n100 = 3)) r3) + 1))"
proof -
  define n' where "n' = n - 1"
  define n400 where "n400 = n' div 146097"
  define r where "r = n' mod 146097"
  define n100 where "n100 = r div 36524"
  define r1 where "r1 = r mod 36524"
  define n4 where "n4 = r1 div 1461"
  define r2 where "r2 = r1 mod 1461"
  define n1 where "n1 = r2 div 365"
  define r3 where "r3 = r2 mod 365"
  note defs = n'_def n400_def r_def n100_def r1_def n4_def r2_def n1_def r3_def
  have r: "0 \<le> r" "r < 146097" "n' = 146097 * n400 + r" by (simp_all add: r_def n400_def)
  have r1: "0 \<le> r1" "r1 < 36524" "r = 36524 * n100 + r1" by (simp_all add: r1_def n100_def)
  have r2: "0 \<le> r2" "r2 < 1461" "r1 = 1461 * n4 + r2" by (simp_all add: r2_def n4_def)
  have r3: "0 \<le> r3" "r3 < 365" "r2 = 365 * n1 + r3" by (simp_all add: r3_def n1_def)
  have n100: "0 \<le> n100" "n100 \<le> 4" using r(1,2) r1 by arith+
  have n4: "0 \<le> n4" "n4 \<le> 24" using r1(1,2) r2 by arith+
  have n1: "0 \<le> n1" "n1 \<le> 4" using r2(1,2) r3 by arith+
  have unf: "ord2ymd n =
       (if n1 = 4 \<or> n100 = 4 then (n400 * 400 + 1 + n100 * 100 + n4 * 4 + n1 - 1, 12, 31)
        else (n400 * 400 + 1 + n100 * 100 + n4 * 4 + n1,
              fst (month_of_yday (n1 = 3 \<and> (n4 \<noteq> 24 \<or> n100 = 3)) r3),
              r3 - snd (month_of_yday (n1 = 3 \<and> (n4 \<noteq> 24 \<or> n100 = 3)) r3) + 1))"
    unfolding defs ord2ymd_def Let_def by (rule refl)
  have "n - 1 = 146097 * n400 + 36524 * n100 + 1461 * n4 + 365 * n1 + r3"
    using r(3) r1(3) r2(3) r3(3) by (simp add: n'_def)
  moreover have "36524 * n100 + 1461 * n4 + 365 * n1 + r3 < 146097"
    using r(2) r1(3) r2(3) r3(3) by simp
  moreover have "1461 * n4 + 365 * n1 + r3 < 36524" using r1(2) r2(3) r3(3) by simp
  moreover have "365 * n1 + r3 < 1461" using r2(2) r3(3) by simp
  ultimately show ?thesis using that n100 n4 n1 r3(1,2) unf by blast
qed

lemma date_ok_dec31:
  assumes "is_leap y" "days_before_year y + 366 = n"
  shows "date_ok n (y, 12, 31)"
  using assms
  by (simp add: date_ok_def ymd2ord_def days_before_month_def days_in_month_def
      DAYS_BEFORE_MONTH_def DAYS_IN_MONTH_def)

lemma date_ok_month:
  assumes "month_ok (is_leap y) r mp" "days_before_year y + r + 1 = n"
  shows "date_ok n (y, fst mp, r - snd mp + 1)"
  using assms
  by (auto simp add: date_ok_def ymd2ord_def days_before_month_def days_in_month_def
      month_ok_def DAYS_IN_MONTH_def)

lemma ord2ymd_ok: "date_ok n (ord2ymd n)"
proof -
  obtain n400 n100 n4 n1 r3 where c:
    "n - 1 = 146097 * n400 + 36524 * n100 + 1461 * n4 + 365 * n1 + r3"
    "0 \<le> n100" "n100 \<le> 4" "0 \<le> n4" "n4 \<le> 24" "0 \<le> n1" "n1 \<le> 4" "0 \<le> r3" "r3 < 365"
    "36524 * n100 + 1461 * n4 + 365 * n1 + r3 < 146097"
    "1461 * n4 + 365 * n1 + r3 < 36524"
    "365 * n1 + r3 < 1461"
    and unf: "ord2ymd n =
       (if n1 = 4 \<or> n100 = 4 then (n400 * 400 + 1 + n100 * 100 + n4 * 4 + n1 - 1, 12, 31)
        else (n400 * 400 + 1 + n100 * 100 + n4 * 4 + n1,
              fst (month_of_yday (n1 = 3 \<and> (n4 \<noteq> 24 \<or> n100 = 3)) r3),
              r3 - snd (month_of_yday (n1 = 3 \<and> (n4 \<noteq> 24 \<or> n100 = 3)) r3) + 1))"
    by (rule ord2ymd_cycles)
  define year where "year = n400 * 400 + 1 + n100 * 100 + n4 * 4 + n1"
  show ?thesis
  proof (cases "n100 = 4")
    case True
    then have z: "n4 = 0" "n1 = 0" "r3 = 0" using c(4,6,8,10) by simp_all
    have y: "year - 1 = n400 * 400 + 1 + 3 * 100 + 24 * 4 + 3"
      using True z by (simp add: year_def)
    have "is_leap (year - 1)" unfolding y by (subst is_leap_cycles) simp_all
    moreover have "days_before_year (year - 1) + 366 = n"
      unfolding y using c(1) True z
      by (subst days_before_year_cycles) simp_all
    ultimately show ?thesis using True by (simp add: unf date_ok_dec31 year_def)
  next
    case F100: False
    then have n100': "n100 \<le> 3" using c(3) by simp
    show ?thesis
    proof (cases "n1 = 4")
      case True
      then have "r3 = 0" using c(8,12) by simp
      have n4': "n4 \<le> 23" using True c(8,11) by simp
      have y: "year - 1 = n400 * 400 + 1 + n100 * 100 + n4 * 4 + 3"
        using True by (simp add: year_def)
      have "is_leap (year - 1)" unfolding y using c(2,4) n100' n4'
        by (subst is_leap_cycles) simp_all
      moreover have "days_before_year (year - 1) + 366 = n"
        unfolding y using c(1,2,4,5) True \<open>r3 = 0\<close> n100'
        by (subst days_before_year_cycles) simp_all
      ultimately show ?thesis using True by (simp add: unf date_ok_dec31 year_def)
    next
      case False
      then have n1': "n1 \<le> 3" using c(7) by simp
      have leap: "is_leap year = (n1 = 3 \<and> (n4 \<noteq> 24 \<or> n100 = 3))"
        unfolding year_def using c(2,4,5,6) n100' n1' by (intro is_leap_cycles) simp_all
      have dby: "days_before_year year + r3 + 1 = n"
        unfolding year_def using c(1,2,4,5,6) n100' n1'
        by (subst days_before_year_cycles) simp_all
      have "month_ok (is_leap year) r3 (month_of_yday (is_leap year) r3)"
        using c(8,9) by (intro month_of_yday_ok) simp_all
      from date_ok_month [OF this dby] show ?thesis
        using False F100 by (simp add: unf leap [unfolded year_def] year_def)
    qed
  qed
qed

lemma ord2ymd_year_range:
  "(1 \<le> fst (ord2ymd n) \<and> fst (ord2ymd n) \<le> 9999) = (1 \<le> n \<and> n \<le> 3652059)"
proof -
  obtain n400 n100 n4 n1 r3 where c:
    "n - 1 = 146097 * n400 + 36524 * n100 + 1461 * n4 + 365 * n1 + r3"
    "0 \<le> n100" "n100 \<le> 4" "0 \<le> n4" "n4 \<le> 24" "0 \<le> n1" "n1 \<le> 4" "0 \<le> r3" "r3 < 365"
    "36524 * n100 + 1461 * n4 + 365 * n1 + r3 < 146097"
    "1461 * n4 + 365 * n1 + r3 < 36524"
    "365 * n1 + r3 < 1461"
    and unf: "ord2ymd n =
       (if n1 = 4 \<or> n100 = 4 then (n400 * 400 + 1 + n100 * 100 + n4 * 4 + n1 - 1, 12, 31)
        else (n400 * 400 + 1 + n100 * 100 + n4 * 4 + n1,
              fst (month_of_yday (n1 = 3 \<and> (n4 \<noteq> 24 \<or> n100 = 3)) r3),
              r3 - snd (month_of_yday (n1 = 3 \<and> (n4 \<noteq> 24 \<or> n100 = 3)) r3) + 1))"
    by (rule ord2ymd_cycles)
  define r where "r = 36524 * n100 + 1461 * n4 + 365 * n1 + r3"
  have r: "n = 146097 * n400 + r + 1" "0 \<le> r" "r < 146097"
    using c by (simp_all add: r_def)
  have nlo: "(1 \<le> n) = (0 \<le> n400)" using r by arith
  have nhi: "(n \<le> 3652059) = (n400 \<le> 23 \<or> n400 = 24 \<and> r \<le> 145730)" using r by arith
  show ?thesis
  proof (cases "n100 = 4")
    case True
    then have z: "n4 = 0" "n1 = 0" "r3 = 0" using c(4,6,8,10) by simp_all
    have y: "fst (ord2ymd n) = 400 * n400 + 400" using True z by (simp add: unf)
    have "r = 146096" using True z by (simp add: r_def)
    then show ?thesis unfolding y nlo nhi by arith
  next
    case F100: False
    then have n100': "n100 \<le> 3" using c(3) by simp
    show ?thesis
    proof (cases "n1 = 4")
      case True
      then have "r3 = 0" using c(8,12) by simp
      have n4': "n4 \<le> 23" using True c(8,11) by simp
      define k where "k = 100 * n100 + 4 * n4 + 4"
      have k: "4 \<le> k" "k \<le> 396" using c(2,4) n100' n4' by (simp_all add: k_def)
      have y: "fst (ord2ymd n) = 400 * n400 + k" using True by (simp add: unf k_def)
      have "r \<le> 144635" using True \<open>r3 = 0\<close> n100' n4' by (simp add: r_def)
      then show ?thesis unfolding y nlo nhi using k r(2) by arith
    next
      case False
      then have n1': "n1 \<le> 3" using c(7) by simp
      define k where "k = 100 * n100 + 4 * n4 + n1"
      have k: "0 \<le> k" "k \<le> 399" using c(2,4,5,6) n100' n1' by (simp_all add: k_def)
      have y: "fst (ord2ymd n) = 400 * n400 + k + 1" using False F100 by (simp add: unf k_def)
      have top: "(k \<le> 398) = (r \<le> 145730)"
      proof (cases "n100 = 3 \<and> n4 = 24 \<and> n1 = 3")
        case True
        then show ?thesis using c(8) by (simp add: k_def r_def)
      next
        case False
        then consider "n100 \<le> 2" | "n100 = 3" "n4 \<le> 23" | "n100 = 3" "n4 = 24" "n1 \<le> 2"
          using n100' n1' c(5) by force
        then show ?thesis
        proof cases
          case 1 then show ?thesis using c(11) c(4,5,6) n1' by (simp add: k_def r_def)
        next
          case 2 then show ?thesis using c(12) c(6) n1' by (simp add: k_def r_def)
        next
          case 3 then show ?thesis using c(9) by (simp add: k_def r_def)
        qed
      qed
      show ?thesis unfolding y nlo nhi top [symmetric] using k by arith
    qed
  qed
qed

section \<open>Doubles\<close>

lemma bitlen_bounds:
  "0 < n \<Longrightarrow> 0 < bitlen n \<and> 2 ^ nat (bitlen n - 1) \<le> n \<and> n < 2 ^ nat (bitlen n)"
proof (induction n rule: bitlen.induct)
  case (1 n)
  show ?case
  proof (cases "n div 2 = 0")
    case True
    then have "n = 1" using "1.prems" by presburger
    then show ?thesis by (simp add: bitlen.simps [of 1] bitlen.simps [of 0])
  next
    case False
    then have m: "0 < n div 2" using "1.prems" by simp
    define b where "b = bitlen (n div 2)"
    have ih: "0 < b" "2 ^ nat (b - 1) \<le> n div 2" "n div 2 < 2 ^ nat b"
      using "1.IH" m "1.prems" by (simp_all add: b_def)
    have bn: "bitlen n = 1 + b" using "1.prems" by (simp add: bitlen.simps [of n] b_def)
    have p: "(2::int) ^ nat b = 2 * 2 ^ nat (b - 1)"
      using ih(1) by (metis Suc_diff_1 nat_diff_distrib' nat_one_as_int
          power_Suc zero_less_nat_eq zero_le_one nat_0_le int_nat_eq of_nat_1 less_imp_le)
    have "2 ^ nat b \<le> n" using ih(2) p by presburger
    moreover have "n < 2 ^ nat (1 + b)"
    proof -
      have "nat (1 + b) = Suc (nat b)" using ih(1) by simp
      then have "(2::int) ^ nat (1 + b) = 2 * 2 ^ nat b" by simp
      then show ?thesis using ih(3) by presburger
    qed
    ultimately show ?thesis using ih(1) by (simp add: bn)
  qed
qed


lemma exponent_le:
  assumes "q \<noteq> 0"
  shows "2 powi (exponent q) \<le> \<bar>q\<bar>"
proof -
  define a where "a = fst (quotient_of \<bar>q\<bar>)"
  define b where "b = snd (quotient_of \<bar>q\<bar>)"
  have b: "0 < b" unfolding b_def by (rule quotient_of_denom_pos')
  have q: "\<bar>q\<bar> = of_int a / of_int b"
    by (rule quotient_of_div) (simp add: a_def b_def)
  have "0 < \<bar>q\<bar>" using assms by simp
  then have a: "0 < a" unfolding q using b by (simp add: zero_less_divide_iff)
  note ba = bitlen_bounds [OF a] and bb = bitlen_bounds [OF b]
  define c where "c = bitlen a - bitlen b"
  have e: "exponent q = (if 2 powi c \<le> \<bar>q\<bar> then c else c - 1)"
    by (simp add: exponent_def Let_def a_def b_def c_def)
  have "(2::rat) powi (c - 1) \<le> \<bar>q\<bar>"
  proof -
    have "c - 1 = (bitlen a - 1) - bitlen b" by (simp add: c_def)
    then have "(2::rat) powi (c - 1) = 2 powi (bitlen a - 1) / 2 powi (bitlen b)"
      by (simp add: power_int_diff)
    also have "(2::rat) powi (bitlen a - 1) = 2 ^ nat (bitlen a - 1)"
      using ba by (simp add: power_int_def)
    also have "(2::rat) powi (bitlen b) = 2 ^ nat (bitlen b)"
      using bb by (simp add: power_int_def)
    also have "(2::rat) ^ nat (bitlen a - 1) / 2 ^ nat (bitlen b) \<le> of_int a / of_int b"
    proof (rule frac_le)
      show "(0::rat) \<le> of_int a" using a by simp
      have "(of_int (2 ^ nat (bitlen a - 1)) :: rat) \<le> of_int a"
        using ba by (simp only: of_int_le_iff)
      then show "(2::rat) ^ nat (bitlen a - 1) \<le> of_int a" by simp
      show "(0::rat) < of_int b" using b by simp
      have "b \<le> 2 ^ nat (bitlen b)" using bb by simp
      then have "(of_int b :: rat) \<le> of_int (2 ^ nat (bitlen b))"
        by (simp only: of_int_le_iff)
      then show "(of_int b :: rat) \<le> 2 ^ nat (bitlen b)" by simp
    qed
    finally show ?thesis by (simp add: q)
  qed
  then show ?thesis unfolding e by simp
qed

lemma py_round_error: "\<bar>of_int (py_round y) - y\<bar> \<le> 1 / 2"
proof -
  have "of_int \<lfloor>y\<rfloor> \<le> y" "y < of_int \<lfloor>y\<rfloor> + 1" by linarith+
  then show ?thesis by (auto simp: py_round_def Let_def)
qed

lemma py_round_near:
  assumes "\<bar>y - of_int m\<bar> < 1 / 2"
  shows "py_round y = m"
proof -
  have f: "of_int \<lfloor>y\<rfloor> \<le> y" "y < of_int \<lfloor>y\<rfloor> + 1" by linarith+
  have lo: "of_int m - 1 / 2 < y" and hi: "y < of_int m + 1 / 2"
    using assms by linarith+
  have "\<lfloor>y\<rfloor> = m \<or> \<lfloor>y\<rfloor> = m - 1" using assms by linarith
  then show ?thesis
  proof
    assume fl: "\<lfloor>y\<rfloor> = m"
    have "y - of_int m < 1 / 2" using hi by linarith
    then show ?thesis by (simp add: py_round_def Let_def fl)
  next
    assume fl: "\<lfloor>y\<rfloor> = m - 1"
    have "1 / 2 < y - of_int (m - 1)" using lo by simp
    then have "\<not> y - of_int (m - 1) < 1 / 2" by linarith
    with \<open>1 / 2 < y - of_int (m - 1)\<close> show ?thesis
      by (simp only: py_round_def Let_def fl if_True if_False)
  qed
qed

lemma py_round_of_int: "py_round (of_int m) = m"
  by (rule py_round_near) simp

lemma round_double_error:
  assumes "\<bar>q\<bar> < 2 powi E" "- 1021 \<le> E"
  shows "\<bar>round_double q - q\<bar> \<le> 2 powi (E - 54)"
proof (cases "q = 0")
  case True
  then show ?thesis by (simp add: round_double_def)
next
  case False
  define e where "e = max (exponent q) (- 1022)"
  define u :: rat where "u = 2 powi (e - 52)"
  have u: "0 < u" unfolding u_def by simp
  have "exponent q < E"
  proof (rule ccontr)
    assume "\<not> exponent q < E"
    then have "(2::rat) powi E \<le> 2 powi (exponent q)"
      by (intro power_int_increasing) simp_all
    with exponent_le [OF False] assms(1) show False by simp
  qed
  then have e: "e - 53 \<le> E - 54" using assms(2) by (simp add: e_def)
  have "round_double q - q = u * (of_int (py_round (q / u)) - q / u)"
    using False u by (simp add: round_double_def Let_def e_def u_def algebra_simps)
  then have "\<bar>round_double q - q\<bar> = u * \<bar>of_int (py_round (q / u)) - q / u\<bar>"
    using u by (simp add: abs_mult)
  also have "\<dots> \<le> u * (1 / 2)"
    using u py_round_error [of "q / u"] by (intro mult_left_mono) simp_all
  also have "u * (1 / 2) = 2 powi (e - 53)"
  proof -
    have "e - 52 = (e - 53) + 1" by simp
    then have "u = 2 powi (e - 53) * 2"
      unfolding u_def using power_int_add [of "2::rat" "e - 53" 1] by simp
    then show ?thesis by simp
  qed
  also have "(2::rat) powi (e - 53) \<le> 2 powi (E - 54)"
    using e by (intro power_int_increasing) simp_all
  finally show ?thesis .
qed

lemma round_double_int:
  assumes "\<bar>x\<bar> < 2 ^ 53"
  shows "round_double (of_int x) = of_int x"
proof (cases "x = 0")
  case True
  then show ?thesis by (simp add: round_double_def)
next
  case False
  define e where "e = max (exponent (of_int x)) (- 1022)"
  have "exponent (of_int x) < 53"
  proof (rule ccontr)
    assume "\<not> exponent (of_int x) < 53"
    then have "(2::rat) powi 53 \<le> 2 powi (exponent (of_int x))"
      by (intro power_int_increasing) simp_all
    also have "\<dots> \<le> \<bar>of_int x\<bar>" using False by (intro exponent_le) simp
    finally have "(2::rat) ^ 53 \<le> of_int \<bar>x\<bar>" by simp
    then have "(of_int (2 ^ 53) :: rat) \<le> of_int \<bar>x\<bar>" by simp
    then have "2 ^ 53 \<le> \<bar>x\<bar>" by (simp only: of_int_le_iff)
    with assms show False by simp
  qed
  then have e: "e \<le> 52" by (simp add: e_def)
  define k where "k = nat (52 - e)"
  have u: "(2::rat) powi (e - 52) = 1 / 2 ^ k"
  proof -
    have "e - 52 = - int k" using e by (simp add: k_def)
    then have "(2::rat) powi (e - 52) = 2 powi (- int k)" by simp
    also have "\<dots> = inverse (2 powi int k)" by (rule power_int_minus)
    also have "\<dots> = 1 / 2 ^ k" by (simp add: inverse_eq_divide)
    finally show ?thesis .
  qed
  have "(of_int x :: rat) / (1 / 2 ^ k) = of_int (x * 2 ^ k)" by simp
  then have "py_round (of_int x / (1 / 2 ^ k)) = x * 2 ^ k"
    by (simp only: py_round_of_int)
  then show ?thesis
    using False by (simp add: round_double_def Let_def e_def [symmetric] u)
qed

lemma trunc_frac: "\<bar>d - of_int (trunc d)\<bar> < 1"
  unfolding trunc_def by (cases "0 \<le> d") (simp_all, linarith+)

section \<open>The timestamp conversion\<close>

lemma hms_split:
  fixes sod :: int
  shows "sod div 3600 * 3600 + sod mod 3600 div 60 * 60 + sod mod 60 = sod"
proof -
  have "sod mod 3600 mod 60 = sod mod 60" by (simp add: mod_mod_cancel)
  then have "sod mod 3600 div 60 * 60 + sod mod 60 = sod mod 3600"
    by (metis div_mult_mod_eq)
  then show ?thesis by (simp add: add.assoc)
qed

lemma hms_bounds:
  fixes sod :: int
  assumes "0 \<le> sod" "sod < 86400"
  shows "0 \<le> sod div 3600" "sod div 3600 < 24" "0 \<le> sod mod 3600 div 60"
    "sod mod 3600 div 60 < 60" "0 \<le> sod mod 60" "sod mod 60 < 60"
  using assms by arith+

lemma timeval_approx:
  "0 \<le> snd (timeval d) \<and> snd (timeval d) < 1000000
   \<and> \<bar>of_int (fst (timeval d) * 1000000 + snd (timeval d)) - d * 1000000\<bar>
       \<le> 1 / 2 + 2 powi (- 34)"
proof -
  define i where "i = trunc d"
  define x where "x = (d - of_int i) * 1000000"
  define fp where "fp = py_round (round_double x)"
  have eps: "(2::rat) powi (- 34) = 1 / 17179869184"
    by (simp add: power_int_minus inverse_eq_divide)
  have "\<bar>x\<bar> = \<bar>d - of_int i\<bar> * \<bar>1000000\<bar>" unfolding x_def by (rule abs_mult)
  also have "\<dots> = \<bar>d - of_int i\<bar> * 1000000" by simp
  also have "\<dots> < 1 * 1000000"
    using trunc_frac [of d] unfolding i_def by (intro mult_strict_right_mono) simp_all
  finally have x: "\<bar>x\<bar> < 1000000" by simp
  then have "\<bar>x\<bar> < 2 powi 20" by simp
  from round_double_error [OF this] have r: "\<bar>round_double x - x\<bar> \<le> 1 / 17179869184"
    by (simp add: eps)
  have p: "\<bar>of_int fp - round_double x\<bar> \<le> 1 / 2"
    unfolding fp_def by (rule py_round_error)
  have a: "\<bar>of_int fp - x\<bar> \<le> 1 / 2 + 1 / 17179869184" using r p by linarith
  have "(of_int fp :: rat) < 1000001" using a x by linarith
  then have hi: "fp \<le> 1000000" by simp
  have "(- 1000001 :: rat) < of_int fp" using a x by linarith
  then have lo: "- 1000000 \<le> fp" by simp
  have tv: "timeval d = (if fp \<ge> 1000000 then (i + 1, fp - 1000000)
                         else if fp < 0 then (i - 1, fp + 1000000) else (i, fp))"
    by (simp add: timeval_def Let_def i_def x_def fp_def)
  have s: "fst (timeval d) * 1000000 + snd (timeval d) = i * 1000000 + fp"
    by (simp add: tv)
  have eq: "(of_int (i * 1000000 + fp) :: rat) - d * 1000000 = of_int fp - x"
    by (simp add: x_def algebra_simps)
  have "\<bar>(of_int (i * 1000000 + fp) :: rat) - d * 1000000\<bar> \<le> 1 / 2 + 1 / 17179869184"
    by (subst eq) (rule a)
  then have "\<bar>of_int (fst (timeval d) * 1000000 + snd (timeval d)) - d * 1000000\<bar>
       \<le> 1 / 2 + 2 powi (- 34)"
    unfolding s eps .
  moreover have "0 \<le> snd (timeval d)" "snd (timeval d) < 1000000"
    using hi lo by (simp_all add: tv)
  ultimately show ?thesis by simp
qed

lemma float_of_int_exact: "\<bar>x\<bar> < 2 ^ 53 \<Longrightarrow> float_of_int x = of_int x"
  unfolding float_of_int_def by (rule round_double_int)

lemma truediv_ms:
  assumes "\<bar>ms\<bar> < 8589934592000"
  shows "\<bar>truediv (float_of_int ms) 1000 * 1000000 - of_int (ms * 1000)\<bar> \<le> 15625 / 32768"
proof -
  define q :: rat where "q = of_int ms / 1000"
  define e where "e = round_double q - q"
  have f: "float_of_int ms = of_int ms" using assms by (intro float_of_int_exact) simp
  have t: "truediv (float_of_int ms) 1000 = round_double q"
    unfolding truediv_def f q_def by (rule refl)
  have "(of_int \<bar>ms\<bar> :: rat) < of_int 8589934592000"
    using assms by (simp only: of_int_less_iff)
  then have "\<bar>q\<bar> < 2 powi 33" by (simp add: q_def)
  from round_double_error [OF this] have "\<bar>e\<bar> \<le> 2 powi (- 21)" by (simp add: e_def)
  also have "(2::rat) powi (- 21) = 1 / 2097152"
    by (simp add: power_int_minus inverse_eq_divide)
  finally have e: "\<bar>e\<bar> \<le> 1 / 2097152" .
  have "round_double q * 1000000 - of_int (ms * 1000) = e * 1000000"
    by (simp add: q_def e_def algebra_simps)
  moreover have "\<bar>e * 1000000\<bar> = \<bar>e\<bar> * \<bar>1000000\<bar>" by (rule abs_mult)
  ultimately have "\<bar>round_double q * 1000000 - of_int (ms * 1000)\<bar> = \<bar>e\<bar> * 1000000"
    by simp
  then show ?thesis unfolding t using e by linarith
qed

lemma timeval_ms:
  assumes "\<bar>ms\<bar> < 8589934592000"
  shows "timeval (truediv (float_of_int ms) 1000) = (ms div 1000, ms mod 1000 * 1000)"
proof -
  define d where "d = truediv (float_of_int ms) 1000"
  define F where "F = fst (timeval d)"
  define U where "U = snd (timeval d)"
  have eps: "(2::rat) powi (- 34) = 1 / 17179869184"
    by (simp add: power_int_minus inverse_eq_divide)
  have U: "0 \<le> U" "U < 1000000"
    and a: "\<bar>of_int (F * 1000000 + U) - d * 1000000\<bar> \<le> 1 / 2 + 1 / 17179869184"
    using timeval_approx [of d] by (simp_all add: F_def U_def eps)
  have b: "\<bar>d * 1000000 - of_int (ms * 1000)\<bar> \<le> 15625 / 32768"
    unfolding d_def by (rule truediv_ms [OF assms])
  have "\<bar>(of_int (F * 1000000 + U) :: rat) - of_int (ms * 1000)\<bar> < 1" using a b by linarith
  then have "\<bar>(of_int (F * 1000000 + U - ms * 1000) :: rat)\<bar> < of_int 1" by simp
  then have "\<bar>F * 1000000 + U - ms * 1000\<bar> < 1"
    by (simp only: of_int_abs [symmetric] of_int_less_iff)
  then have e: "ms * 1000 = F * 1000000 + U" by simp
  define V where "V = ms - F * 1000"
  have V: "U = V * 1000" "ms = 1000 * F + V" using e by (simp_all add: V_def)
  then have "0 \<le> V" "V < 1000" using U by simp_all
  then have "ms div 1000 = F" "ms mod 1000 = V"
    using V(2) by (simp_all add: int_div_pos_eq int_mod_pos_eq)
  then show ?thesis using V(1) by (simp add: d_def F_def U_def prod_eq_iff)
qed

lemma fromtimestamp_exact:
  assumes tv: "timeval t = (S, us)" and us: "0 \<le> us" "us < 1000000"
    and range: "- 62135510400 \<le> S + z" "S + z < 253402300800"
  shows "\<exists>dt. fromtimestamp z t = Inr dt \<and> valid_datetime dt
           \<and> epoch_us dt = (S + z) * 1000000 + us"
proof -
  define s where "s = S + z"
  define sod where "sod = s mod 86400"
  define n where "n = s div 86400 + 719163"
  define dt where "dt = \<lparr>dt_year = fst (ord2ymd n), dt_month = fst (snd (ord2ymd n)),
                 dt_day = snd (snd (ord2ymd n)),
                 dt_hour = sod div 3600, dt_minute = sod mod 3600 div 60,
                 dt_second = sod mod 60, dt_microsecond = us\<rparr>"
  have sod: "0 \<le> sod" "sod < 86400" by (simp_all add: sod_def)
  have probe: "(s - 86400) div 86400 + 719163 = n - 1" by (simp add: n_def)
  have unf: "fromtimestamp z t =
      (if \<not> year_ok (fst (ord2ymd n)) then Inl (ValueError ''year is out of range'')
       else if \<not> year_ok (fst (ord2ymd (n - 1))) then Inl (ValueError ''year is out of range'')
       else Inr dt)"
    unfolding fromtimestamp_def tv Let_def fst_conv snd_conv probe [unfolded s_def]
      dt_def n_def sod_def s_def by (rule refl)
  have "- 62135510400 \<le> s" "s < 253402300800" using range by (simp_all add: s_def)
  then have n: "2 \<le> n" "n \<le> 3652059" unfolding n_def by arith+
  then have yr: "1 \<le> fst (ord2ymd n) \<and> fst (ord2ymd n) \<le> 9999"
    by (simp add: ord2ymd_year_range)
  have "1 \<le> n - 1 \<and> n - 1 \<le> 3652059" using n by simp
  then have pr: "1 \<le> fst (ord2ymd (n - 1)) \<and> fst (ord2ymd (n - 1)) \<le> 9999"
    by (simp only: ord2ymd_year_range)
  have r: "fromtimestamp z t = Inr dt" using yr pr by (simp add: unf year_ok_def)
  have ok: "ymd2ord (fst (ord2ymd n)) (fst (snd (ord2ymd n))) (snd (snd (ord2ymd n))) = n"
    "1 \<le> fst (snd (ord2ymd n))" "fst (snd (ord2ymd n)) \<le> 12" "1 \<le> snd (snd (ord2ymd n))"
    "snd (snd (ord2ymd n)) \<le> days_in_month (fst (ord2ymd n)) (fst (snd (ord2ymd n)))"
    using ord2ymd_ok [of n] by (simp_all add: date_ok_def split_beta)
  have v: "valid_datetime dt"
    using ok yr us hms_bounds [OF sod] by (simp add: valid_datetime_def dt_def)
  have "ymd2ord (dt_year dt) (dt_month dt) (dt_day dt) - 719163 = s div 86400"
    using ok(1) by (simp add: dt_def n_def)
  moreover have "dt_hour dt * 3600 + dt_minute dt * 60 + dt_second dt = sod"
    using hms_split [of sod] by (simp add: dt_def)
  ultimately have "epoch_us dt = (s div 86400 * 86400 + sod) * 1000000 + us"
    by (simp add: epoch_us_def dt_def add.assoc)
  also have "s div 86400 * 86400 + sod = s" by (simp add: sod_def)
  finally show ?thesis using r v by (simp add: s_def)
qed

lemma get_timestamp_ms:
  assumes "\<bar>ms\<bar> < 8589934592000"
  shows "\<exists>dt. get_timestamp 0 (Some ms) = Inr dt \<and> valid_datetime dt
           \<and> epoch_us dt = ms * 1000"
proof -
  have us: "0 \<le> ms mod 1000 * 1000" "ms mod 1000 * 1000 < 1000000" by simp_all
  have "- 8589934592000 < ms" "ms < 8589934592000" using assms by simp_all
  then have "(- 8589934592000) div 1000 \<le> ms div 1000"
    "ms div 1000 \<le> 8589934591999 div 1000"
    by (simp_all add: zdiv_mono1)
  then have "- 8589934592 \<le> ms div 1000" "ms div 1000 < 8589934592" by simp_all
  then have range: "- 62135510400 \<le> ms div 1000 + 0" "ms div 1000 + 0 < 253402300800"
    by simp_all
  from fromtimestamp_exact [OF timeval_ms [OF assms] us range]
  obtain dt where "fromtimestamp 0 (truediv (float_of_int ms) 1000) = Inr dt"
    "valid_datetime dt" "epoch_us dt = (ms div 1000 + 0) * 1000000 + ms mod 1000 * 1000"
    by blast
  moreover have "(ms div 1000 + 0) * 1000000 + ms mod 1000 * 1000 = ms * 1000"
  proof -
    define D where "D = ms div 1000"
    define M where "M = ms mod 1000"
    have "ms = D * 1000 + M" by (simp add: D_def M_def)
    moreover have "(D + 0) * 1000000 + M * 1000 = (D * 1000 + M) * 1000" by simp
    ultimately show ?thesis unfolding D_def [symmetric] M_def [symmetric] by simp
  qed
  ultimately show ?thesis by (simp add: get_timestamp_def)
qed

lemma get_timestamp_nov15: "get_timestamp 0 (Some 1542241826796) = Inr nov15"
  by code_simp

lemma get_timestamp_nov4: "get_timestamp 0 (Some 1541332800000) = Inr nov4"
  by code_simp

lemma get_timestamp_2242:
  "get_timestamp 0 (Some 8589934592001)
     = Inr \<lparr>dt_year = 2242, dt_month = 3, dt_day = 16, dt_hour = 12, dt_minute = 56,
            dt_second = 32, dt_microsecond = 999\<rparr>"
  by code_simp

lemma epoch_2242:
  "epoch_us \<lparr>dt_year = 2242, dt_month = 3, dt_day = 16, dt_hour = 12, dt_minute = 56,
            dt_second = 32, dt_microsecond = 999\<rparr> = 8589934592000999"
  by code_simp

lemma get_timestamp_1697:
  "get_timestamp 0 (Some (- 8589934592001))
     = Inr \<lparr>dt_year = 1697, dt_month = 10, dt_day = 17, dt_hour = 11, dt_minute = 3,
            dt_second = 27, dt_microsecond = 999001\<rparr>"
  by code_simp

lemma epoch_1697:
  "epoch_us \<lparr>dt_year = 1697, dt_month = 10, dt_day = 17, dt_hour = 11, dt_minute = 3,
            dt_second = 27, dt_microsecond = 999001\<rparr> = - 8589934592000999"
  by code_simp

lemma get_timestamp_year1:
  "get_timestamp 0 (Some (- 62135596800000)) = Inl (ValueError ''year is out of range'')"
  by code_simp

section \<open>Calendar fields as text\<close>

lemma show_int_examples: "show_int 2018 = ''2018''" "show_int 11 = ''11''"
  by code_simp+

lemma date_format_simps:
  "date_format dt ''H'' = Some (show_int (dt_hour dt))"
  "date_format dt ''D'' = Some (show_int (day_of_year dt))"
  "date_format dt ''w'' = Some (show_int (week_of_year dt))"
  "date_format dt ''M'' = Some (show_int (dt_month dt))"
  "date_format dt ''y'' = Some (show_int (dt_year dt))"
  "date_format dt ''W'' = Some (show_int (week_of_month dt))"
  "date_format dt ''F'' = Some (show_int (day_of_week_in_month dt))"
  "date_format dt ''u'' = Some (show_int (iso_day_of_week (fixed_date dt)))"
  by (simp_all add: date_format_def)

lemma nov4_formats:
  "map (date_format nov4) [''W'', ''F'', ''u''] = [Some ''2'', Some ''1'', Some ''7'']"
  by code_simp

lemma nov15_formats:
  "map (date_format nov15) [''H'', ''D'', ''w'', ''M'', ''y'', ''W'']
     = [Some ''0'', Some ''319'', Some ''46'', Some ''11'', Some ''2018'', Some ''3'']"
  by code_simp

section \<open>The log dataframe\<close>

lemma collect_Inr: "collect xs = Inr ys \<Longrightarrow> xs = map Inr ys"
  by (induction xs arbitrary: ys) (auto split: sum.splits)

lemma collect_map_Inr: "collect (map Inr ys) = Inr ys"
  by (induction ys) auto

lemma converted_withColumn_ts:
  "get_timestamp z (ts r0) = Inr v \<Longrightarrow> converted z r0 (withColumn_ts r0 v)"
  by (simp add: converted_def withColumn_ts_def start_time_def)

lemma with_start_time_Nil: "with_start_time spark [] = Inr []"
  by (simp add: with_start_time_def)

lemma with_start_time_Cons:
  "with_start_time spark (r # df) =
     (case get_timestamp (tz (engine spark)) (ts r) of
        Inl e \<Rightarrow> Inl e
      | Inr v \<Rightarrow> (case with_start_time spark df of
                    Inl e \<Rightarrow> Inl e
                  | Inr vs \<Rightarrow> Inr (withColumn_ts r v # vs)))"
  by (simp add: with_start_time_def split: sum.splits)

lemma with_start_time_Inr:
  "with_start_time spark df0 = Inr df \<Longrightarrow> list_all2 (converted (tz (engine spark))) df0 df"
proof (induction df0 arbitrary: df)
  case Nil
  then show ?case by (simp add: with_start_time_Nil)
next
  case (Cons r df0)
  then show ?case
    by (auto simp: with_start_time_Cons converted_withColumn_ts split: sum.splits)
qed

lemma converted_maps:
  assumes "list_all2 (converted z) df0 df"
  shows "length df = length df0"
    and "map (\<lambda>r. get_timestamp z (ts r)) df0 = map (\<lambda>r. Inr (start_time r)) df"
    and "map song df = map song df0" and "map userId df = map userId df0"
    and "map level df = map level df0" and "map sessionId df = map sessionId df0"
    and "map location df = map location df0" and "map userAgent df = map userAgent df0"
    and "map page df = map page df0"
  using assms by (induction rule: list_all2_induct) (simp_all add: converted_def)

lemma time_table_start_times: "map t_start_time (time_table df) = map start_time df"
  by (simp add: time_table_def)

lemma nextsong_iff: "r \<in> set (nextsong df) \<longleftrightarrow> r \<in> set df \<and> page r = Some ''NextSong''"
  by (auto simp: nextsong_def sql_eq_def split: option.splits)

lemma nextsong_idem: "nextsong (nextsong df) = nextsong df"
  by (simp add: nextsong_def)

section \<open>The time table\<close>

text \<open>
  What the script writes to the time table: one row per NextSong-filtered log record,
  in the order of the records, the \<^verbatim>\<open>start_time\<close> of a row being the converted \<^verbatim>\<open>ts\<close>
  of its record. So every timestamp of the filtered log appears in the table.
\<close>

lemma time_table_rows:
  "with_start_time spark (nextsong logs) = Inr df \<Longrightarrow>
     length (time_table df) = length (nextsong logs)
     \<and> map (\<lambda>t. Inr (t_start_time t)) (time_table df)
         = map (\<lambda>r. get_timestamp (tz (engine spark)) (ts r)) (nextsong logs)"
proof -
  assume "with_start_time spark (nextsong logs) = Inr df"
  from converted_maps(1,2) [OF with_start_time_Inr [OF this]]
  show ?thesis by (simp add: time_table_def o_def)
qed

text \<open>
  C1 asks for one row per distinct timestamp: \<open>distinct (map t_start_time (time_table df))\<close>.
  The songs, artists and users tables each go through \<^verbatim>\<open>dropDuplicates\<close> on their key
  (lines 55, 68 and 106); the time table (lines 120 to 125) is selected from the
  filtered log with no such call. On a log with two NextSong events of the same \<^verbatim>\<open>ts\<close>
  the script gives a time table of two rows with the same \<^verbatim>\<open>start_time\<close>, where the
  claim allows one.
\<close>

theorem time_table_duplicates:
  "with_start_time (create_spark_session utc_cluster)
     (nextsong [log_event ''NextSong'' (Some ''26'') None (Some 1542241826796),
                log_event ''NextSong'' (Some ''26'') None (Some 1542241826796)])
     = Inr [log_event ''NextSong'' (Some ''26'') None nov15,
            log_event ''NextSong'' (Some ''26'') None nov15]
   \<and> map t_start_time (time_table [log_event ''NextSong'' (Some ''26'') None nov15,
            log_event ''NextSong'' (Some ''26'') None nov15]) = [nov15, nov15]
   \<and> \<not> distinct (map t_start_time (time_table [log_event ''NextSong'' (Some ''26'') None nov15,
            log_event ''NextSong'' (Some ''26'') None nov15]))"
  by (simp add: with_start_time_Cons with_start_time_Nil nextsong_def sql_eq_def log_event_def
      create_spark_session_def utc_cluster_def get_timestamp_nov15 withColumn_ts_def
      time_table_def start_time_def)

section \<open>The conversion of \<^verbatim>\<open>ts\<close>\<close>

text \<open>
  C2, as the claim states it, has \<^verbatim>\<open>ts\<close> = 1542241826796 converted to
  2018-11-14T21:43:46 in UTC. 1542241826796 ms are 17850 days, 30 minutes, 26 seconds and
  796 ms after the epoch: the conversion gives 2018-11-15T00:30:26. Nor is every \<^verbatim>\<open>ts\<close>
  mapped to its instant. From \<open>2^33\<close> seconds on, the double \<^verbatim>\<open>x/1000.0\<close> is too coarse for
  the microseconds: \<^verbatim>\<open>ts\<close> = 8589934592001 (in 2242) and \<^verbatim>\<open>ts\<close> = -8589934592001 (in 1697)
  come out one microsecond away from the millisecond. And on the first day of year 1
  the conversion raises \<^verbatim>\<open>ValueError\<close>, as the day before is no date of Python.
\<close>

theorem start_time_example_wrong:
  "map_sum id (\<lambda>d. (dt_year d, dt_month d, dt_day d, dt_hour d, dt_minute d, dt_second d))
     (get_timestamp 0 (Some 1542241826796)) = Inr (2018, 11, 15, 0, 30, 26)
   \<and> map_sum id (\<lambda>d. (dt_year d, dt_month d, dt_day d, dt_hour d, dt_minute d, dt_second d))
     (get_timestamp 0 (Some 1542241826796)) \<noteq> Inr (2018, 11, 14, 21, 43, 46)
   \<and> map_sum id epoch_us (get_timestamp 0 (Some 8589934592001)) = Inr 8589934592000999
   \<and> map_sum id epoch_us (get_timestamp 0 (Some 8589934592001)) \<noteq> Inr (8589934592001 * 1000)
   \<and> map_sum id epoch_us (get_timestamp 0 (Some (- 8589934592001))) = Inr (- 8589934592000999)
   \<and> map_sum id epoch_us (get_timestamp 0 (Some (- 8589934592001)))
        \<noteq> Inr (- 8589934592001 * 1000)
   \<and> get_timestamp 0 (Some (- 62135596800000)) = Inl (ValueError ''year is out of range'')"
  by (simp add: get_timestamp_nov15 nov15_def get_timestamp_2242 get_timestamp_1697
      get_timestamp_year1 epoch_2242 epoch_1697)

text \<open>
  C2, amended: in a process whose time zone is UTC, the conversion maps every \<^verbatim>\<open>ts\<close>
  of absolute value below 8589934592000 (\<open>2^33\<close> seconds: the instants from 1697-10-17
  to 2242-03-16), read as milliseconds since the epoch, to the UTC calendar timestamp
  of that instant: the conversion returns, the result is a valid calendar date and time,
  and its reading as microseconds since the epoch is \<open>ts * 1000\<close>. For
  \<^verbatim>\<open>ts\<close> = 1542241826796 the \<^verbatim>\<open>start_time\<close> is 2018-11-15T00:30:26.796, and the year and
  month fields of the time table for that row are the strings 2018 and 11.
\<close>

theorem get_timestamp_utc:
  "(\<bar>ms\<bar> < 8589934592000 \<longrightarrow>
      (\<exists>dt. get_timestamp 0 (Some ms) = Inr dt \<and> valid_datetime dt
            \<and> epoch_us dt = ms * 1000))
   \<and> get_timestamp 0 (Some 1542241826796) =
        Inr \<lparr>dt_year = 2018, dt_month = 11, dt_day = 15, dt_hour = 0, dt_minute = 30,
             dt_second = 26, dt_microsecond = 796000\<rparr>
   \<and> (tz (engine spark) = 0 \<and> ts r = Some 1542241826796 \<longrightarrow>
        (\<exists>r'. with_start_time spark [r] = Inr [r']
           \<and> map t_start_time (time_table [r']) =
               [\<lparr>dt_year = 2018, dt_month = 11, dt_day = 15, dt_hour = 0, dt_minute = 30,
                 dt_second = 26, dt_microsecond = 796000\<rparr>]
           \<and> map t_year (time_table [r']) = [Some ''2018'']
           \<and> map t_month (time_table [r']) = [Some ''11'']))"
proof (intro conjI impI)
  assume "\<bar>ms\<bar> < 8589934592000"
  then show "\<exists>dt. get_timestamp 0 (Some ms) = Inr dt \<and> valid_datetime dt
            \<and> epoch_us dt = ms * 1000"
    by (rule get_timestamp_ms)
next
  show "get_timestamp 0 (Some 1542241826796) =
        Inr \<lparr>dt_year = 2018, dt_month = 11, dt_day = 15, dt_hour = 0, dt_minute = 30,
             dt_second = 26, dt_microsecond = 796000\<rparr>"
    using get_timestamp_nov15 by (simp add: nov15_def)
next
  assume a: "tz (engine spark) = 0 \<and> ts r = Some 1542241826796"
  have f: "date_format nov15 ''y'' = Some ''2018''" "date_format nov15 ''M'' = Some ''11''"
    using nov15_formats by simp_all
  have "with_start_time spark [r] = Inr [withColumn_ts r nov15]"
    using a by (simp add: with_start_time_Cons with_start_time_Nil get_timestamp_nov15)
  moreover have "start_time (withColumn_ts r nov15) = nov15"
    by (simp add: start_time_def withColumn_ts_def)
  ultimately show "\<exists>r'. with_start_time spark [r] = Inr [r']
           \<and> map t_start_time (time_table [r']) =
               [\<lparr>dt_year = 2018, dt_month = 11, dt_day = 15, dt_hour = 0, dt_minute = 30,
                 dt_second = 26, dt_microsecond = 796000\<rparr>]
           \<and> map t_year (time_table [r']) = [Some ''2018'']
           \<and> map t_month (time_table [r']) = [Some ''11'']"
    using f by (simp add: time_table_def) (simp add: nov15_def)
qed

theorem get_timestamp_utc_witness:
  "\<bar>1542241826796 :: int\<bar> < 8589934592000
   \<and> get_timestamp 0 (Some 1542241826796) = Inr nov15
   \<and> valid_datetime nov15 \<and> epoch_us nov15 = 1542241826796 * 1000
   \<and> (\<exists>r'. with_start_time (create_spark_session utc_cluster)
              [log_event ''NextSong'' (Some ''26'') None (Some 1542241826796)] = Inr [r']
           \<and> map t_start_time (time_table [r']) = [nov15]
           \<and> map t_year (time_table [r']) = [Some ''2018'']
           \<and> map t_month (time_table [r']) = [Some ''11''])"
  using get_timestamp_utc [of 1542241826796 "create_spark_session utc_cluster"
      "log_event ''NextSong'' (Some ''26'') None (Some 1542241826796)"]
    get_timestamp_nov15
  by (simp add: create_spark_session_def utc_cluster_def log_event_def) (simp add: nov15_def)

section \<open>The weekday column\<close>

lemma start_time_log_event: "start_time (log_event p u s d) = d"
  by (simp add: start_time_def log_event_def)

text \<open>
  C6, as the claim states it, has the weekday column computed from the
  day-of-week-in-month pattern, which is the letter \<^verbatim>\<open>F\<close>. The script passes \<^verbatim>\<open>W\<close>, the
  week in the month. On Sunday 2018-11-04 the first gives 1 (the first Sunday of the
  month) and the script writes 2 (the second week of the month).
\<close>

theorem weekday_not_day_of_week_in_month:
  "map t_weekday (time_table [log_event ''NextSong'' (Some ''26'') None nov4]) = [Some ''2'']
   \<and> date_format nov4 ''F'' = Some ''1''
   \<and> map t_weekday (time_table [log_event ''NextSong'' (Some ''26'') None nov4])
       \<noteq> [date_format nov4 ''F'']"
  using nov4_formats by (simp add: time_table_def start_time_log_event)

text \<open>
  C6, amended: the weekday column of the time table is computed from the week-in-month
  pattern \<^verbatim>\<open>W\<close> applied to \<^verbatim>\<open>start_time\<close>, not from the day of the week: on Sunday
  2018-11-04 it is 2, where the day of the week is 7 and the day of week in month is 1.
\<close>

theorem weekday_is_week_of_month:
  "(\<forall>t \<in> set (time_table df).
      t_weekday t = date_format (t_start_time t) ''W''
      \<and> t_weekday t = Some (show_int (week_of_month (t_start_time t))))
   \<and> date_format nov4 ''W'' = Some ''2''
   \<and> date_format nov4 ''u'' = Some ''7''
   \<and> date_format nov4 ''F'' = Some ''1''"
  using nov4_formats by (auto simp: time_table_def date_format_simps)

theorem weekday_is_week_of_month_witness:
  "map t_weekday (time_table [log_event ''NextSong'' (Some ''26'') None nov4,
                              log_event ''NextSong'' (Some ''26'') None nov15])
     = [Some ''2'', Some ''3'']
   \<and> map (\<lambda>t. Some (show_int (week_of_month (t_start_time t))))
        (time_table [log_event ''NextSong'' (Some ''26'') None nov4,
                     log_event ''NextSong'' (Some ''26'') None nov15])
     = [Some ''2'', Some ''3'']"
proof -
  let ?df = "[log_event ''NextSong'' (Some ''26'') None nov4,
              log_event ''NextSong'' (Some ''26'') None nov15]"
  have "map t_weekday (time_table ?df)
          = map (\<lambda>t. Some (show_int (week_of_month (t_start_time t)))) (time_table ?df)"
    by (rule map_cong [OF refl]) (use weekday_is_week_of_month [of ?df] in blast)
  moreover have "map t_weekday (time_table ?df) = [Some ''2'', Some ''3'']"
    using nov4_formats nov15_formats by (simp add: time_table_def start_time_log_event)
  ultimately show ?thesis by simp
qed

section \<open>The songplays table, row by row\<close>

lemma songplays_table_length:
  "length (songplays_table spark df song_df)
     = length (join_df (\<lambda>l s. sql_eq (song l) (title s)) df song_df)"
  by (simp add: songplays_table_def Let_def)

lemma songplays_table_nth:
  assumes "i < length (join_df (\<lambda>l s. sql_eq (song l) (title s)) df song_df)"
  shows "songplays_table spark df song_df ! i =
           select_songplay_columns (join_df (\<lambda>l s. sql_eq (song l) (title s)) df song_df ! i)
             (monotonically_increasing_id (part (engine spark)) i)"
  using assms by (simp add: songplays_table_def Let_def)

lemma songplays_table_row:
  assumes "p \<in> set (songplays_table spark df song_df)"
  obtains l s i where "(l, s) \<in> set (join_df (\<lambda>l s. sql_eq (song l) (title s)) df song_df)"
    "p = select_songplay_columns (l, s) i"
proof -
  from assms obtain i where "i < length (join_df (\<lambda>l s. sql_eq (song l) (title s)) df song_df)"
    "p = select_songplay_columns (join_df (\<lambda>l s. sql_eq (song l) (title s)) df song_df ! i)
             (monotonically_increasing_id (part (engine spark)) i)"
    by (auto simp: songplays_table_def Let_def)
  then show ?thesis using that [of "fst (join_df (\<lambda>l s. sql_eq (song l) (title s)) df song_df ! i)"
      "snd (join_df (\<lambda>l s. sql_eq (song l) (title s)) df song_df ! i)"] 
    by (metis nth_mem prod.collapse)
qed

lemma songplays_example:
  "songplays_table (create_spark_session utc_cluster)
     [log_event ''NextSong'' (Some ''26'') (Some ''Setanta matins'') nov15]
     [song_meta (Some ''SOZCTXZ12AB0182364'') (Some ''Setanta matins'') (Some ''AR5KOSW1187FB35FF4'')]
   = [\<lparr>sp_start_time = nov15, sp_userId = Some ''26'', sp_level = Some ''free'',
       sp_song_id = Some ''SOZCTXZ12AB0182364'', sp_artist_id = Some ''AR5KOSW1187FB35FF4'',
       sp_sessionId = Some 583, sp_location = Some ''San Jose-Sunnyvale-Santa Clara, CA'',
       sp_userAgent = Some ''Mozilla/5.0'', sp_year = Some ''2018'', sp_month = Some ''11'',
       sp_songplay_id = 0\<rparr>]"
  using nov15_formats
  by (simp add: songplays_table_def join_df_def sql_eq_def log_event_def song_meta_def
      select_songplay_columns_def start_time_def monotonically_increasing_id_def
      row_in_partition_def create_spark_session_def utc_cluster_def)

section \<open>Calendar columns\<close>

text \<open>
  C10: the calendar columns are text. In every row of the time table the hour, day, week,
  month, year and weekday columns, and in every row of the songplays table the year and
  month columns, are the decimal rendering that \<^verbatim>\<open>date_format\<close> gives of the field of
  \<^verbatim>\<open>start_time\<close>; for a timestamp in November 2018 the year and month are the strings
  2018 and 11.
\<close>

theorem calendar_fields_are_strings:
  "(\<forall>t \<in> set (time_table df).
      t_hour t = Some (show_int (dt_hour (t_start_time t)))
      \<and> t_day t = Some (show_int (day_of_year (t_start_time t)))
      \<and> t_week t = Some (show_int (week_of_year (t_start_time t)))
      \<and> t_month t = Some (show_int (dt_month (t_start_time t)))
      \<and> t_year t = Some (show_int (dt_year (t_start_time t)))
      \<and> t_weekday t = Some (show_int (week_of_month (t_start_time t))))
   \<and> (\<forall>p \<in> set (songplays_table spark df (song_df :: 'd song_record list)).
      sp_year p = Some (show_int (dt_year (sp_start_time p)))
      \<and> sp_month p = Some (show_int (dt_month (sp_start_time p))))
   \<and> show_int 2018 = ''2018'' \<and> show_int 11 = ''11''"
proof (intro conjI ballI)
  fix p assume "p \<in> set (songplays_table spark df song_df)"
  then obtain l and s :: "'d song_record" and i where p: "p = select_songplay_columns (l, s) i"
    by (rule songplays_table_row)
  show "sp_year p = Some (show_int (dt_year (sp_start_time p)))"
    by (simp add: p select_songplay_columns_def date_format_simps)
  show "sp_month p = Some (show_int (dt_month (sp_start_time p)))"
    by (simp add: p select_songplay_columns_def date_format_simps)
qed (auto simp: time_table_def date_format_simps show_int_examples)

theorem calendar_fields_are_strings_witness:
  "map t_year (time_table [log_event ''NextSong'' (Some ''26'') (Some ''Setanta matins'') nov15])
     = [Some ''2018'']
   \<and> map t_month (time_table [log_event ''NextSong'' (Some ''26'') (Some ''Setanta matins'') nov15])
     = [Some ''11'']
   \<and> map sp_year (songplays_table (create_spark_session utc_cluster)
        [log_event ''NextSong'' (Some ''26'') (Some ''Setanta matins'') nov15]
        [song_meta (Some ''SOZCTXZ12AB0182364'') (Some ''Setanta matins'') (Some ''AR5KOSW1187FB35FF4'')])
     = [Some ''2018'']
   \<and> map sp_month (songplays_table (create_spark_session utc_cluster)
        [log_event ''NextSong'' (Some ''26'') (Some ''Setanta matins'') nov15]
        [song_meta (Some ''SOZCTXZ12AB0182364'') (Some ''Setanta matins'') (Some ''AR5KOSW1187FB35FF4'')])
     = [Some ''11'']"
proof -
  let ?df = "[log_event ''NextSong'' (Some ''26'') (Some ''Setanta matins'') nov15]"
  let ?songs = "[song_meta (Some ''SOZCTXZ12AB0182364'') (Some ''Setanta matins'')
                   (Some ''AR5KOSW1187FB35FF4'')]"
  let ?sp = "create_spark_session utc_cluster"
  note c = calendar_fields_are_strings [of ?df ?sp ?songs]
  have t: "map t_start_time (time_table ?df) = [nov15]"
    by (simp add: time_table_start_times start_time_log_event)
  have p: "map sp_start_time (songplays_table ?sp ?df ?songs) = [nov15]"
    by (simp add: songplays_example)
  have y: "dt_year nov15 = 2018" "dt_month nov15 = 11" by (simp_all add: nov15_def)
  have "map t_year (time_table ?df)
          = map (\<lambda>t. Some (show_int (dt_year t))) (map t_start_time (time_table ?df))"
    unfolding map_map o_def by (rule map_cong [OF refl]) (use c in blast)
  moreover have "map t_month (time_table ?df)
          = map (\<lambda>t. Some (show_int (dt_month t))) (map t_start_time (time_table ?df))"
    unfolding map_map o_def by (rule map_cong [OF refl]) (use c in blast)
  moreover have "map sp_year (songplays_table ?sp ?df ?songs)
          = map (\<lambda>t. Some (show_int (dt_year t))) (map sp_start_time (songplays_table ?sp ?df ?songs))"
    unfolding map_map o_def by (rule map_cong [OF refl]) (use c in blast)
  moreover have "map sp_month (songplays_table ?sp ?df ?songs)
          = map (\<lambda>t. Some (show_int (dt_month t))) (map sp_start_time (songplays_table ?sp ?df ?songs))"
    unfolding map_map o_def by (rule map_cong [OF refl]) (use c in blast)
  ultimately show ?thesis unfolding t p using c by (simp add: y)
qed

section \<open>Deduplication by key\<close>

lemma group_nonempty:
  assumes "k \<in> set (map key df)"
  shows "filter (\<lambda>r. key r = k) df \<noteq> []"
  using assms by (auto simp: filter_empty_conv)

lemma picked_in_group:
  assumes "k \<in> set (map key df)"
  defines "g \<equiv> filter (\<lambda>r. key r = k) df"
  shows "g ! (pick g mod length g) \<in> set df" "key (g ! (pick g mod length g)) = k"
proof -
  have "g \<noteq> []" unfolding g_def using assms(1) by (rule group_nonempty)
  then have "pick g mod length g < length g" by simp
  then have "g ! (pick g mod length g) \<in> set g" by (rule nth_mem)
  then show "g ! (pick g mod length g) \<in> set df" "key (g ! (pick g mod length g)) = k"
    by (simp_all add: g_def)
qed

lemma dropDuplicates_keys: "map key (dropDuplicates pick key df) = remdups (map key df)"
proof -
  have "map key (dropDuplicates pick key df)
          = map (\<lambda>k. key (let g = filter (\<lambda>r. key r = k) df in g ! (pick g mod length g)))
              (remdups (map key df))"
    by (simp add: dropDuplicates_def o_def)
  also have "\<dots> = map (\<lambda>k. k) (remdups (map key df))"
  proof (rule map_cong [OF refl])
    fix k assume "k \<in> set (remdups (map key df))"
    then have "k \<in> set (map key df)" by simp
    from picked_in_group(2) [OF this, of pick]
    show "key (let g = filter (\<lambda>r. key r = k) df in g ! (pick g mod length g)) = k"
      by (simp add: Let_def)
  qed
  finally show ?thesis by simp
qed

lemma dropDuplicates_subset: "set (dropDuplicates pick key df) \<subseteq> set df"
proof
  fix r assume "r \<in> set (dropDuplicates pick key df)"
  then obtain k where k: "k \<in> set (map key df)"
    and r: "r = (let g = filter (\<lambda>r. key r = k) df in g ! (pick g mod length g))"
    by (auto simp: dropDuplicates_def)
  from picked_in_group(1) [OF k, of pick] show "r \<in> set df" by (simp add: r Let_def)
qed

lemma dropna_keys: "map key (dropna key df) = filter (\<lambda>k. k \<noteq> None) (map key df)"
  by (simp add: dropna_def filter_map o_def)

lemma dedup_keys:
  "map key (dropna key (dropDuplicates pick key df))
     = filter (\<lambda>k. k \<noteq> None) (remdups (map key df))"
  by (simp add: dropna_keys dropDuplicates_keys)

lemma dedup_subset: "set (dropna key (dropDuplicates pick key df)) \<subseteq> set df"
  using dropDuplicates_subset [of pick key df] by (auto simp: dropna_def)

lemma distinct_count_one:
  assumes "distinct (map f xs)" "k \<in> set (map f xs)"
  shows "length (filter (\<lambda>x. f x = k) xs) = 1"
  using assms
proof (induction xs)
  case Nil
  then show ?case by simp
next
  case (Cons x xs)
  show ?case
  proof (cases "f x = k")
    case True
    then have "k \<notin> f ` set xs" using Cons.prems(1) by auto
    then have "filter (\<lambda>x. f x = k) xs = []" by (auto simp: filter_empty_conv)
    then show ?thesis using True by simp
  next
    case False
    then show ?thesis using Cons by auto
  qed
qed

lemma dedup_unique_key:
  "unique_key key (map key df) (dropna key (dropDuplicates pick key df))"
proof -
  let ?t = "dropna key (dropDuplicates pick key df)"
  have k: "map key ?t = filter (\<lambda>k. k \<noteq> None) (remdups (map key df))" by (rule dedup_keys)
  have d: "distinct (map key ?t)" unfolding k by simp
  have n: "None \<notin> set (map key ?t)" unfolding k by simp
  have "length (filter (\<lambda>r. key r = i) ?t) = 1" if "i \<in> set (map key df)" "i \<noteq> None" for i
  proof -
    have "i \<in> set (map key ?t)" unfolding k using that by simp
    with d show ?thesis by (rule distinct_count_one)
  qed
  then show ?thesis using d n unfolding unique_key_def by blast
qed

section \<open>Keys of the songs, artists and users tables\<close>

text \<open>
  C5: each of the three key-deduplicated tables has the unique-non-null-key property.
  In the songs table no two rows share a \<^verbatim>\<open>song_id\<close>, no row has a null \<^verbatim>\<open>song_id\<close>, and
  every non-null \<^verbatim>\<open>song_id\<close> of a song record is the \<^verbatim>\<open>song_id\<close> of exactly one row;
  likewise the artists table by \<^verbatim>\<open>artist_id\<close> and the users table by \<^verbatim>\<open>userId\<close>, the
  latter over the NextSong-filtered records. Every row is the projection of an input
  record. This holds whichever row of a group of duplicates the engine keeps.
\<close>

theorem unique_non_null_keys:
  "unique_key s_song_id (map song_id df_song) (songs_table spark df_song)
   \<and> unique_key a_artist_id (map artist_id df_song) (artists_table spark df_song)
   \<and> unique_key u_userId (map userId (nextsong logs)) (user_table spark (nextsong logs))
   \<and> set (songs_table spark df_song) \<subseteq> select_song_columns ` set df_song
   \<and> set (artists_table spark df_song) \<subseteq> select_artist_columns ` set df_song
   \<and> set (user_table spark (nextsong logs)) \<subseteq> select_user_columns ` set (nextsong logs)"
proof -
  have s: "map song_id df_song = map s_song_id (map select_song_columns df_song)"
    by (simp add: select_song_columns_def)
  have a: "map artist_id df_song = map a_artist_id (map select_artist_columns df_song)"
    by (simp add: select_artist_columns_def)
  have u: "map userId (nextsong logs) = map u_userId (map select_user_columns (nextsong logs))"
    by (simp add: select_user_columns_def)
  have "unique_key s_song_id (map song_id df_song) (songs_table spark df_song)"
    unfolding s songs_table_def Let_def by (rule dedup_unique_key)
  moreover have "unique_key a_artist_id (map artist_id df_song) (artists_table spark df_song)"
    unfolding a artists_table_def Let_def by (rule dedup_unique_key)
  moreover have "unique_key u_userId (map userId (nextsong logs)) (user_table spark (nextsong logs))"
    unfolding u user_table_def Let_def by (rule dedup_unique_key)
  moreover have "set (songs_table spark df_song) \<subseteq> select_song_columns ` set df_song"
    unfolding songs_table_def Let_def
    using dedup_subset [of s_song_id _ "map select_song_columns df_song"] by simp
  moreover have "set (artists_table spark df_song) \<subseteq> select_artist_columns ` set df_song"
    unfolding artists_table_def Let_def
    using dedup_subset [of a_artist_id _ "map select_artist_columns df_song"] by simp
  moreover have "set (user_table spark (nextsong logs)) \<subseteq> select_user_columns ` set (nextsong logs)"
    unfolding user_table_def Let_def
    using dedup_subset [of u_userId _ "map select_user_columns (nextsong logs)"] by simp
  ultimately show ?thesis by blast
qed

theorem unique_non_null_keys_witness:
  "length (filter (\<lambda>r. s_song_id r = Some ''SOZCTXZ12AB0182364'')
      (songs_table (create_spark_session utc_cluster)
        [song_meta (Some ''SOZCTXZ12AB0182364'') (Some ''Setanta matins'') (Some ''AR5KOSW1187FB35FF4''),
         song_meta (Some ''SOZCTXZ12AB0182364'') (Some ''Setanta matins (live)'') (Some ''AR5KOSW1187FB35FF4''),
         song_meta None (Some ''Untitled'') None])) = 1
   \<and> length (filter (\<lambda>r. a_artist_id r = Some ''AR5KOSW1187FB35FF4'')
      (artists_table (create_spark_session utc_cluster)
        [song_meta (Some ''SOZCTXZ12AB0182364'') (Some ''Setanta matins'') (Some ''AR5KOSW1187FB35FF4''),
         song_meta (Some ''SOZCTXZ12AB0182364'') (Some ''Setanta matins (live)'') (Some ''AR5KOSW1187FB35FF4''),
         song_meta None (Some ''Untitled'') None])) = 1
   \<and> length (filter (\<lambda>r. u_userId r = Some ''26'')
      (user_table (create_spark_session utc_cluster)
        (nextsong [log_event ''NextSong'' (Some ''26'') (Some ''Setanta matins'') (Some 1542241826796),
           log_event ''Home'' (Some ''27'') None (Some 1542241826796),
           log_event ''NextSong'' (Some ''26'') (Some ''Sehr kosmisch'') (Some 1542241826796),
           log_event ''NextSong'' None (Some ''Untitled'') (Some (1541332800000::int))]))) = 1"
  using unique_non_null_keys [where spark = "create_spark_session utc_cluster" and df_song =
        "[song_meta (Some ''SOZCTXZ12AB0182364'') (Some ''Setanta matins'') (Some ''AR5KOSW1187FB35FF4''),
         song_meta (Some ''SOZCTXZ12AB0182364'') (Some ''Setanta matins (live)'') (Some ''AR5KOSW1187FB35FF4''),
         song_meta None (Some ''Untitled'') None]" and logs =
        "[log_event ''NextSong'' (Some ''26'') (Some ''Setanta matins'') (Some 1542241826796),
           log_event ''Home'' (Some ''27'') None (Some 1542241826796),
           log_event ''NextSong'' (Some ''26'') (Some ''Sehr kosmisch'') (Some 1542241826796),
           log_event ''NextSong'' None (Some ''Untitled'') (Some (1541332800000::int))]"]
  by (simp add: unique_key_def song_meta_def log_event_def nextsong_def sql_eq_def)

section \<open>The join of log events and songs\<close>

lemma join_df_Nil: "join_df on [] right = []"
  by (simp add: join_df_def)

lemma join_df_Cons: "join_df on (l # left) right = map (Pair l) (filter (on l) right) @ join_df on left right"
  by (simp add: join_df_def)

lemma join_df_append: "join_df on (xs @ ys) right = join_df on xs right @ join_df on ys right"
  by (simp add: join_df_def)

lemma join_df_length:
  "length (join_df on left right) = (\<Sum>l\<leftarrow>left. length (filter (on l) right))"
  by (induction left) (simp_all add: join_df_Nil join_df_Cons)

lemma join_df_set: "(l, r) \<in> set (join_df on left right) \<longleftrightarrow> l \<in> set left \<and> r \<in> set right \<and> on l r"
  by (auto simp: join_df_def)

lemma sql_eq_simps:
  "sql_eq (Some x) (Some y) = (x = y)" "sql_eq None b = False" "sql_eq a None = False"
  by (simp_all add: sql_eq_def split: option.splits)

lemma songplays_table_columns:
  "map (\<lambda>p. (sp_start_time p, sp_userId p, sp_level p, sp_sessionId p, sp_location p,
              sp_userAgent p, sp_song_id p, sp_artist_id p)) (songplays_table spark df song_df)
   = map (\<lambda>(l, s). (start_time l, userId l, level l, sessionId l, location l, userAgent l,
                     song_id s, artist_id s))
       (join_df (\<lambda>l s. sql_eq (song l) (title s)) df song_df)"
  by (rule nth_equalityI)
     (simp_all add: songplays_table_def Let_def select_songplay_columns_def split_beta)

text \<open>
  C4: the songplays table is the inner join of the NextSong-filtered log events with the
  song records on equality of the log's \<^verbatim>\<open>song\<close> with the song's \<^verbatim>\<open>title\<close>: its rows,
  apart from the generated id and the two calendar columns, are the pairs of a log event
  and a matching song, event by event. An event inside the log contributes as many rows
  as there are matching songs: one row when exactly one title matches, none when no title
  matches. The comparison is equality of the two strings, and a null on either side never
  matches.
\<close>

theorem songplays_inner_join:
  "map (\<lambda>p. (sp_start_time p, sp_userId p, sp_level p, sp_sessionId p, sp_location p,
              sp_userAgent p, sp_song_id p, sp_artist_id p)) (songplays_table spark df song_df)
     = concat (map (\<lambda>l. map (\<lambda>s. (start_time l, userId l, level l, sessionId l, location l,
                                    userAgent l, song_id s, artist_id s))
                            (filter (\<lambda>s. sql_eq (song l) (title s)) song_df)) df)
   \<and> length (songplays_table spark (xs @ l # ys) song_df)
       = length (songplays_table spark xs song_df)
         + length (filter (\<lambda>s. sql_eq (song l) (title s)) song_df)
         + length (songplays_table spark ys song_df)
   \<and> (length (filter (\<lambda>s. sql_eq (song l) (title s)) song_df) = 1
        \<longrightarrow> length (songplays_table spark [l] song_df) = 1)
   \<and> ((\<forall>s \<in> set song_df. \<not> sql_eq (song l) (title s))
        \<longrightarrow> songplays_table spark [l] song_df = [])
   \<and> sql_eq (Some a) (Some b) = (a = b) \<and> \<not> sql_eq None (Some b) \<and> \<not> sql_eq (Some a) None
   \<and> \<not> sql_eq None (None :: string option)"
proof (intro conjI impI)
  show "map (\<lambda>p. (sp_start_time p, sp_userId p, sp_level p, sp_sessionId p, sp_location p,
              sp_userAgent p, sp_song_id p, sp_artist_id p)) (songplays_table spark df song_df)
     = concat (map (\<lambda>l. map (\<lambda>s. (start_time l, userId l, level l, sessionId l, location l,
                                    userAgent l, song_id s, artist_id s))
                            (filter (\<lambda>s. sql_eq (song l) (title s)) song_df)) df)"
    unfolding songplays_table_columns
    by (simp add: join_df_def map_concat o_def)
  show "length (songplays_table spark (xs @ l # ys) song_df)
       = length (songplays_table spark xs song_df)
         + length (filter (\<lambda>s. sql_eq (song l) (title s)) song_df)
         + length (songplays_table spark ys song_df)"
    by (simp add: songplays_table_length join_df_append join_df_Cons)
next
  assume "length (filter (\<lambda>s. sql_eq (song l) (title s)) song_df) = 1"
  then show "length (songplays_table spark [l] song_df) = 1"
    by (simp add: songplays_table_length join_df_Cons join_df_Nil)
next
  assume "\<forall>s \<in> set song_df. \<not> sql_eq (song l) (title s)"
  then have "filter (\<lambda>s. sql_eq (song l) (title s)) song_df = []"
    by (simp add: filter_empty_conv)
  then have "length (songplays_table spark [l] song_df) = 0"
    by (simp add: songplays_table_length join_df_Cons join_df_Nil)
  then show "songplays_table spark [l] song_df = []" by simp
qed (simp_all add: sql_eq_simps)

theorem songplays_inner_join_witness:
  "length (songplays_table (create_spark_session utc_cluster)
      [log_event ''NextSong'' (Some ''26'') (Some ''Setanta matins'') nov15]
      [song_meta (Some ''SOZCTXZ12AB0182364'') (Some ''Setanta matins'') (Some ''AR5KOSW1187FB35FF4''),
       song_meta (Some ''SOBLFFE12AF72AA5BA'') (Some ''Scream'') (Some ''ARJNIUY12298900C91'')]) = 1
   \<and> songplays_table (create_spark_session utc_cluster)
      [log_event ''NextSong'' (Some ''26'') (Some ''Sehr kosmisch'') nov15]
      [song_meta (Some ''SOZCTXZ12AB0182364'') (Some ''Setanta matins'') (Some ''AR5KOSW1187FB35FF4''),
       song_meta (Some ''SOBLFFE12AF72AA5BA'') (Some ''Scream'') (Some ''ARJNIUY12298900C91'')] = []"
  using songplays_inner_join [where spark = "create_spark_session utc_cluster"
      and l = "log_event ''NextSong'' (Some ''26'') (Some ''Setanta matins'') nov15"
      and song_df = "[song_meta (Some ''SOZCTXZ12AB0182364'') (Some ''Setanta matins'') (Some ''AR5KOSW1187FB35FF4''),
       song_meta (Some ''SOBLFFE12AF72AA5BA'') (Some ''Scream'') (Some ''ARJNIUY12298900C91'')]"]
    songplays_inner_join [where spark = "create_spark_session utc_cluster"
      and l = "log_event ''NextSong'' (Some ''26'') (Some ''Sehr kosmisch'') nov15"
      and song_df = "[song_meta (Some ''SOZCTXZ12AB0182364'') (Some ''Setanta matins'') (Some ''AR5KOSW1187FB35FF4''),
       song_meta (Some ''SOBLFFE12AF72AA5BA'') (Some ''Scream'') (Some ''ARJNIUY12298900C91'')]"]
  by (simp add: log_event_def song_meta_def sql_eq_def)

section \<open>The generated \<^verbatim>\<open>songplay_id\<close>\<close>

lemma id_as_nat:
  "monotonically_increasing_id pt i = word_of_nat (pt i * 2 ^ 33 + row_in_partition pt i)"
  by (simp add: monotonically_increasing_id_def push_bit_eq_mult)

lemma unat_id:
  assumes "pt i < 2 ^ 31" "row_in_partition pt i < 2 ^ 33"
  shows "unat (monotonically_increasing_id pt i) = pt i * 2 ^ 33 + row_in_partition pt i"
proof -
  have "pt i * 2 ^ 33 + row_in_partition pt i < 2 ^ 64" using assms by simp
  then show ?thesis unfolding id_as_nat unat_of_nat by simp
qed

lemma row_in_partition_mono:
  assumes "i < j" "pt i = pt j"
  shows "row_in_partition pt i < row_in_partition pt j"
proof -
  have "[0..<j] = [0..<i] @ i # [Suc i..<j]"
    using assms(1) by (metis le_add_diff_inverse less_imp_le_nat upt_add_eq_append upt_conv_Cons zero_le)
  then show ?thesis using assms(2) by (simp add: row_in_partition_def)
qed

lemma ids_inj:
  assumes "pt i < 2 ^ 31" "row_in_partition pt i < 2 ^ 33"
    "pt j < 2 ^ 31" "row_in_partition pt j < 2 ^ 33"
    "monotonically_increasing_id pt i = monotonically_increasing_id pt j"
  shows "i = j"
proof -
  have e: "pt i * 2 ^ 33 + row_in_partition pt i = pt j * 2 ^ 33 + row_in_partition pt j"
    using unat_id [OF assms(1,2)] unat_id [OF assms(3,4)] assms(5) by simp
  have "(pt i * 2 ^ 33 + row_in_partition pt i) div 2 ^ 33 = pt i"
    using assms(2) by simp
  moreover have "(pt j * 2 ^ 33 + row_in_partition pt j) div 2 ^ 33 = pt j"
    using assms(4) by simp
  ultimately have p: "pt i = pt j" using e by simp
  then have k: "row_in_partition pt i = row_in_partition pt j" using e by simp
  show ?thesis
  proof (rule ccontr)
    assume "i \<noteq> j"
    then consider "i < j" | "j < i" by linarith
    then show False
    proof cases
      case 1 from row_in_partition_mono [OF 1 p] k show False by simp
    next
      case 2 from row_in_partition_mono [OF 2 p [symmetric]] k show False by simp
    qed
  qed
qed

lemma songplay_ids:
  "map sp_songplay_id (songplays_table spark df song_df)
     = map (monotonically_increasing_id (part (engine spark)))
         [0..<length (songplays_table spark df song_df)]"
  by (simp add: songplays_table_def Let_def select_songplay_columns_def o_def)

lemma songplays_replicate_length:
  assumes "sql_eq (song l) (title s)"
  shows "length (songplays_table spark (replicate n l) [s]) = n"
  using assms by (simp add: songplays_table_length join_df_length sum_list_replicate)

lemma ids_collide:
  assumes "sql_eq (song l) (title s)" "a < n" "b < n" "a \<noteq> b"
    "monotonically_increasing_id (part (engine spark)) a
       = monotonically_increasing_id (part (engine spark)) b"
  shows "\<not> distinct (map sp_songplay_id (songplays_table spark (replicate n l) [s]))"
proof -
  have "\<not> inj_on (monotonically_increasing_id (part (engine spark))) (set [0..<n])"
  proof
    assume "inj_on (monotonically_increasing_id (part (engine spark))) (set [0..<n])"
    from inj_onD [OF this assms(5)] assms(2,3) have "a = b" by simp
    with assms(4) show False by simp
  qed
  then show ?thesis
    unfolding songplay_ids songplays_replicate_length [OF assms(1)] by (simp add: distinct_map)
qed

lemma skewed_ids:
  "monotonically_increasing_id (\<lambda>i. if i \<le> N then 0 else 1) N = word_of_nat N"
  "monotonically_increasing_id (\<lambda>i. if i \<le> N then 0 else 1) (Suc N) = push_bit 33 1"
proof -
  have "filter (\<lambda>j. j \<le> N) [0..<N] = [0..<N]" by (rule filter_True) simp
  then show "monotonically_increasing_id (\<lambda>i. if i \<le> N then 0 else 1) N = word_of_nat N"
    by (simp add: monotonically_increasing_id_def row_in_partition_def)
  have "filter (\<lambda>j. \<not> j \<le> N) [0..<Suc N] = []" by (rule filter_False) auto
  then show "monotonically_increasing_id (\<lambda>i. if i \<le> N then 0 else 1) (Suc N) = push_bit 33 1"
    by (simp add: monotonically_increasing_id_def row_in_partition_def del: upt_Suc)
qed

lemma two_plays:
  "map sp_songplay_id
     (songplays_table (create_spark_session utc_cluster)
        [log_event ''NextSong'' (Some ''26'') (Some ''Setanta matins'') nov15,
         log_event ''NextSong'' (Some ''26'') (Some ''Setanta matins'') nov4]
        [song_meta (Some ''SOZCTXZ12AB0182364'') (Some ''Setanta matins'')
           (Some ''AR5KOSW1187FB35FF4'')]) = [0, 8589934592]"
  by (simp add: songplays_table_def join_df_def sql_eq_def log_event_def song_meta_def
      select_songplay_columns_def monotonically_increasing_id_def
      row_in_partition_def create_spark_session_def utc_cluster_def upt_rec [of 0 2]
      upt_rec [of 1 2] upt_rec [of 0 1] push_bit_eq_mult)

text \<open>
  C9, as the claim states it, has the ids of a run pairwise distinct for every input.
  The id keeps 33 bits for the number of the row inside its partition. With
  8589934594 plays of one song, of which the cluster puts the first 2^33 + 1 in
  partition 0, row 2^33 of partition 0 and row 0 of partition 1 both get the id 2^33.
\<close>

theorem songplay_ids_collide:
  "\<not> distinct (map sp_songplay_id
        (songplays_table (create_spark_session skewed_cluster)
           (replicate 8589934594
              (log_event ''NextSong'' (Some ''26'') (Some ''Setanta matins'') nov15))
           [song_meta (Some ''SOZCTXZ12AB0182364'') (Some ''Setanta matins'')
              (Some ''AR5KOSW1187FB35FF4'')]))"
proof (rule ids_collide [where a = 8589934592 and b = 8589934593])
  show "sql_eq (song (log_event ''NextSong'' (Some ''26'') (Some ''Setanta matins'') nov15))
          (title (song_meta (Some ''SOZCTXZ12AB0182364'') (Some ''Setanta matins'')
              (Some ''AR5KOSW1187FB35FF4'')))"
    by (simp add: sql_eq_def log_event_def song_meta_def)
  show "(8589934592::nat) < 8589934594" "(8589934593::nat) < 8589934594"
    "(8589934592::nat) \<noteq> 8589934593" by simp_all
  have p: "part (engine (create_spark_session skewed_cluster))
             = (\<lambda>i. if i \<le> 8589934592 then 0 else 1)"
    by (simp add: create_spark_session_def skewed_cluster_def)
  have s: "(8589934593::nat) = Suc 8589934592" by simp
  show "monotonically_increasing_id (part (engine (create_spark_session skewed_cluster))) 8589934592
        = monotonically_increasing_id (part (engine (create_spark_session skewed_cluster))) 8589934593"
    unfolding p s skewed_ids by (simp add: push_bit_eq_mult)
qed

text \<open>
  C9, amended: within a single run the \<^verbatim>\<open>songplay_id\<close> values of the rows of the
  songplays table are pairwise distinct, provided that every partition index is below
  2^31 (a Java int) and every row has fewer than 2^33 rows before it in its partition.
  The values need not be contiguous, and they depend on the partitioning the engine
  chooses: two rows dealt to two partitions get the ids 0 and 8589934592.
\<close>

theorem songplay_ids_distinct:
  "(\<forall>i < length (songplays_table spark df song_df).
       part (engine spark) i < 2 ^ 31 \<and> row_in_partition (part (engine spark)) i < 2 ^ 33)
   \<longrightarrow> distinct (map sp_songplay_id (songplays_table spark df song_df))"
proof
  assume b: "\<forall>i < length (songplays_table spark df song_df).
       part (engine spark) i < 2 ^ 31 \<and> row_in_partition (part (engine spark)) i < 2 ^ 33"
  have "inj_on (monotonically_increasing_id (part (engine spark)))
          (set [0..<length (songplays_table spark df song_df)])"
  proof (rule inj_onI)
    fix x y
    assume "x \<in> set [0..<length (songplays_table spark df song_df)]"
      "y \<in> set [0..<length (songplays_table spark df song_df)]"
      and e: "monotonically_increasing_id (part (engine spark)) x
              = monotonically_increasing_id (part (engine spark)) y"
    then have "part (engine spark) x < 2 ^ 31" "row_in_partition (part (engine spark)) x < 2 ^ 33"
      "part (engine spark) y < 2 ^ 31" "row_in_partition (part (engine spark)) y < 2 ^ 33"
      using b by simp_all
    then show "x = y" using e by (rule ids_inj)
  qed
  then show "distinct (map sp_songplay_id (songplays_table spark df song_df))"
    unfolding songplay_ids by (simp add: distinct_map)
qed


theorem songplay_ids_distinct_witness:
  "distinct (map sp_songplay_id
     (songplays_table (create_spark_session utc_cluster)
        [log_event ''NextSong'' (Some ''26'') (Some ''Setanta matins'') nov15,
         log_event ''NextSong'' (Some ''26'') (Some ''Setanta matins'') nov4]
        [song_meta (Some ''SOZCTXZ12AB0182364'') (Some ''Setanta matins'')
           (Some ''AR5KOSW1187FB35FF4'')]))
   \<and> map sp_songplay_id
     (songplays_table (create_spark_session utc_cluster)
        [log_event ''NextSong'' (Some ''26'') (Some ''Setanta matins'') nov15,
         log_event ''NextSong'' (Some ''26'') (Some ''Setanta matins'') nov4]
        [song_meta (Some ''SOZCTXZ12AB0182364'') (Some ''Setanta matins'')
           (Some ''AR5KOSW1187FB35FF4'')]) = [0, 8589934592]"
proof -
  let ?t = "songplays_table (create_spark_session utc_cluster)
        [log_event ''NextSong'' (Some ''26'') (Some ''Setanta matins'') nov15,
         log_event ''NextSong'' (Some ''26'') (Some ''Setanta matins'') nov4]
        [song_meta (Some ''SOZCTXZ12AB0182364'') (Some ''Setanta matins'')
           (Some ''AR5KOSW1187FB35FF4'')]"
  have "length (map sp_songplay_id ?t) = 2" unfolding two_plays by simp
  then have len: "length ?t = 2" by simp
  have p: "part (engine (create_spark_session utc_cluster)) = (\<lambda>i. i mod 2)"
    by (simp add: create_spark_session_def utc_cluster_def)
  have "\<forall>i < length ?t. part (engine (create_spark_session utc_cluster)) i < 2 ^ 31
          \<and> row_in_partition (part (engine (create_spark_session utc_cluster))) i < 2 ^ 33"
    unfolding len p
  proof (intro allI impI)
    fix i :: nat assume "i < 2"
    then have "i = 0 \<or> i = 1" by auto
    then show "i mod 2 < 2 ^ 31 \<and> row_in_partition (\<lambda>i. i mod 2) i < 2 ^ 33"
      by (auto simp: row_in_partition_def)
  qed
  with songplay_ids_distinct [where spark = "create_spark_session utc_cluster"
      and df = "[log_event ''NextSong'' (Some ''26'') (Some ''Setanta matins'') nov15,
         log_event ''NextSong'' (Some ''26'') (Some ''Setanta matins'') nov4]"
      and song_df = "[song_meta (Some ''SOZCTXZ12AB0182364'') (Some ''Setanta matins'')
           (Some ''AR5KOSW1187FB35FF4'')]"]
  have "distinct (map sp_songplay_id ?t)" by blast
  then show ?thesis using two_plays by simp
qed

section \<open>What the two transforms write\<close>

lemma paths:
  "path_join ''s3a://udacity-dend/'' ''song_data/*/*/*'' = ''s3a://udacity-dend/song_data/*/*/*''"
  "path_join ''s3a://udacity-dend/'' ''log_data/*/*'' = ''s3a://udacity-dend/log_data/*/*''"
  "path_join ''analytics'' ''songs_table_parquet'' = ''analytics/songs_table_parquet''"
  "path_join ''analytics'' ''artist_table_parquet'' = ''analytics/artist_table_parquet''"
  "path_join ''analytics'' ''user_table_parquet'' = ''analytics/user_table_parquet''"
  "path_join ''analytics'' ''time_table_parquet'' = ''analytics/time_table_parquet''"
  "path_join ''analytics'' ''songplay_table_parquet'' = ''analytics/songplay_table_parquet''"
  by (simp_all add: path_join_def)

lemma write_parquet_Inr:
  assumes "write_parquet cols path df st = Inr st'"
  obtains t where "df = Inr t" "map_of (written st) path = None"
    "st' = st\<lparr>written := written st @ [(path, \<lparr>partitionBy = cols, rows = t\<rparr>)]\<rparr>"
  using assms by (auto simp: write_parquet_def split: if_splits sum.splits)

lemma write_parquet_loads:
  assumes "write_parquet cols path df st = Inr st'"
  shows "load_songs st' p = load_songs st p" "load_logs st' p = load_logs st p"
  using assms by (auto simp: write_parquet_def load_songs_def load_logs_def split: if_splits sum.splits)

lemma process_song_data_Done:
  assumes "process_song_data spark input_data output_data st = Done st'"
  obtains df_song where
    "load_songs st (path_join input_data ''song_data/*/*/*'') = Inr df_song"
    "st' = st\<lparr>written := written st @
       [(path_join output_data ''songs_table_parquet'',
         \<lparr>partitionBy = [''artist_id'', ''year''], rows = SongsTable (songs_table spark df_song)\<rparr>),
        (path_join output_data ''artist_table_parquet'',
         \<lparr>partitionBy = [], rows = ArtistsTable (artists_table spark df_song)\<rparr>)]\<rparr>"
  using assms
  by (auto simp: process_song_data_def Let_def split: sum.splits elim!: write_parquet_Inr)

lemma process_log_data_Done:
  assumes "process_log_data spark input_data output_data st = Done st'"
  obtains logs df song_df where
    "load_logs st (path_join input_data ''log_data/*/*'') = Inr logs"
    "with_start_time spark (nextsong logs) = Inr df"
    "load_songs st (path_join input_data ''song_data/*/*/*'') = Inr song_df"
    "st' = st\<lparr>written := written st @
       [(path_join output_data ''user_table_parquet'',
         \<lparr>partitionBy = [], rows = UsersTable (user_table spark (nextsong logs))\<rparr>),
        (path_join output_data ''time_table_parquet'',
         \<lparr>partitionBy = [], rows = TimeTable (time_table df)\<rparr>),
        (path_join output_data ''songplay_table_parquet'',
         \<lparr>partitionBy = [''year'', ''month''],
          rows = SongplaysTable (songplays_table spark df song_df)\<rparr>)]\<rparr>"
proof -
  from assms obtain logs st1 st2 song_df st3 where
    l: "load_logs st (path_join input_data ''log_data/*/*'') = Inr logs"
    and w1: "write_parquet [] (path_join output_data ''user_table_parquet'')
               (Inr (UsersTable (user_table spark (nextsong logs)))) st = Inr st1"
    and w2: "write_parquet [] (path_join output_data ''time_table_parquet'')
               (map_sum id (\<lambda>df. TimeTable (time_table df))
                  (with_start_time spark (nextsong logs))) st1 = Inr st2"
    and s: "load_songs st2 (path_join input_data ''song_data/*/*/*'') = Inr song_df"
    and w3: "write_parquet [''year'', ''month''] (path_join output_data ''songplay_table_parquet'')
               (map_sum id (\<lambda>df. SongplaysTable (songplays_table spark df song_df))
                  (with_start_time spark (nextsong logs))) st2 = Inr st3"
    and d: "st' = st3"
    by (auto simp: process_log_data_def Let_def split: sum.splits)
  from w2 obtain df where df: "with_start_time spark (nextsong logs) = Inr df"
    by (cases "with_start_time spark (nextsong logs)") (auto simp: write_parquet_def split: if_splits)
  have s': "load_songs st (path_join input_data ''song_data/*/*/*'') = Inr song_df"
    using s write_parquet_loads(1) [OF w1] write_parquet_loads(1) [OF w2] by simp
  from w1 have 1: "st1 = st\<lparr>written := written st @
       [(path_join output_data ''user_table_parquet'',
         \<lparr>partitionBy = [], rows = UsersTable (user_table spark (nextsong logs))\<rparr>)]\<rparr>"
    by (auto elim!: write_parquet_Inr)
  from w2 have 2: "st2 = st1\<lparr>written := written st1 @
       [(path_join output_data ''time_table_parquet'',
         \<lparr>partitionBy = [], rows = TimeTable (time_table df)\<rparr>)]\<rparr>"
    unfolding df by (auto elim!: write_parquet_Inr)
  from w3 have 3: "st3 = st2\<lparr>written := written st2 @
       [(path_join output_data ''songplay_table_parquet'',
         \<lparr>partitionBy = [''year'', ''month''],
          rows = SongplaysTable (songplays_table spark df song_df)\<rparr>)]\<rparr>"
    unfolding df by (auto elim!: write_parquet_Inr)
  show ?thesis
    by (rule that [OF l df s']) (simp add: d 1 2 3)
qed

lemma process_log_data_Raised:
  assumes "process_log_data spark input_data output_data st = Raised e st'"
  shows "set (map fst (written st')) \<subseteq> set (map fst (written st))
           \<union> {path_join output_data ''user_table_parquet'',
              path_join output_data ''time_table_parquet''}"
  using assms
  by (auto simp: process_log_data_def Let_def split: sum.splits elim!: write_parquet_Inr)

lemma load_songs_written: "load_songs (st\<lparr>written := w\<rparr>) p = load_songs st p"
  by (simp add: load_songs_def)

lemma main_Done:
  assumes "main c st = Done st'"
  obtains logs df song_df where
    "load_logs st ''s3a://udacity-dend/log_data/*/*'' = Inr logs"
    "with_start_time (create_spark_session c) (nextsong logs) = Inr df"
    "load_songs st ''s3a://udacity-dend/song_data/*/*/*'' = Inr song_df"
    "written st' = written st @
       [(''analytics/user_table_parquet'',
         \<lparr>partitionBy = [],
          rows = UsersTable (user_table (create_spark_session c) (nextsong logs))\<rparr>),
        (''analytics/time_table_parquet'',
         \<lparr>partitionBy = [], rows = TimeTable (time_table df)\<rparr>),
        (''analytics/songplay_table_parquet'',
         \<lparr>partitionBy = [''year'', ''month''],
          rows = SongplaysTable (songplays_table (create_spark_session c) df song_df)\<rparr>),
        (''analytics/songs_table_parquet'',
         \<lparr>partitionBy = [''artist_id'', ''year''],
          rows = SongsTable (songs_table (create_spark_session c) song_df)\<rparr>),
        (''analytics/artist_table_parquet'',
         \<lparr>partitionBy = [],
          rows = ArtistsTable (artists_table (create_spark_session c) song_df)\<rparr>)]"
proof -
  from assms obtain st1 where
    l: "process_log_data (create_spark_session c) ''s3a://udacity-dend/'' ''analytics'' st = Done st1"
    and s: "process_song_data (create_spark_session c) ''s3a://udacity-dend/'' ''analytics'' st1 = Done st'"
    by (auto simp: main_def Let_def split: outcome.splits)
  from l obtain logs df song_df where 1:
    "load_logs st ''s3a://udacity-dend/log_data/*/*'' = Inr logs"
    "with_start_time (create_spark_session c) (nextsong logs) = Inr df"
    "load_songs st ''s3a://udacity-dend/song_data/*/*/*'' = Inr song_df"
    "st1 = st\<lparr>written := written st @
       [(''analytics/user_table_parquet'',
         \<lparr>partitionBy = [], rows = UsersTable (user_table (create_spark_session c) (nextsong logs))\<rparr>),
        (''analytics/time_table_parquet'',
         \<lparr>partitionBy = [], rows = TimeTable (time_table df)\<rparr>),
        (''analytics/songplay_table_parquet'',
         \<lparr>partitionBy = [''year'', ''month''],
          rows = SongplaysTable (songplays_table (create_spark_session c) df song_df)\<rparr>)]\<rparr>"
    by (rule process_log_data_Done) (simp add: paths)
  from s obtain df_song where 2:
    "load_songs st1 ''s3a://udacity-dend/song_data/*/*/*'' = Inr df_song"
    "st' = st1\<lparr>written := written st1 @
       [(''analytics/songs_table_parquet'',
         \<lparr>partitionBy = [''artist_id'', ''year''],
          rows = SongsTable (songs_table (create_spark_session c) df_song)\<rparr>),
        (''analytics/artist_table_parquet'',
         \<lparr>partitionBy = [], rows = ArtistsTable (artists_table (create_spark_session c) df_song)\<rparr>)]\<rparr>"
    by (rule process_song_data_Done) (simp add: paths)
  have "df_song = song_df" using 2(1) 1(3) unfolding 1(4) by (simp add: load_songs_written)
  then show ?thesis using that [OF 1(1,2,3)] 1(4) 2(2) by simp
qed

lemma example_run: "fst (result (main utc_cluster example_store)) = None"
  by code_simp

lemma failing_run:
  "fst (result (process_log_data (create_spark_session utc_cluster) ''s3a://udacity-dend/''
          ''analytics'' (example_store\<lparr>json_songs := []\<rparr>)))
     = Some (AnalysisException ''Path does not exist'')"
  by code_simp

lemma log_run:
  "fst (result (process_log_data (create_spark_session utc_cluster) ''s3a://udacity-dend/''
          ''analytics'' example_store)) = None"
  by code_simp

section \<open>Partitioning of the output\<close>

text \<open>
  C7: when \<^verbatim>\<open>main\<close> ends normally it has written, in this order, the users table and
  the time table without partitioning, the songplays table partitioned by (year, month),
  the songs table partitioned by (artist_id, year) and the artists table without
  partitioning.
\<close>

theorem partitioning_of_outputs:
  "main c st = Done st' \<longrightarrow>
     map (\<lambda>w. (fst w, partitionBy (snd w))) (written st')
       = map (\<lambda>w. (fst w, partitionBy (snd w))) (written st) @
         [(''analytics/user_table_parquet'', []),
          (''analytics/time_table_parquet'', []),
          (''analytics/songplay_table_parquet'', [''year'', ''month'']),
          (''analytics/songs_table_parquet'', [''artist_id'', ''year'']),
          (''analytics/artist_table_parquet'', [])]
     \<and> (\<exists>u t p s a. map (\<lambda>w. rows (snd w)) (written st')
            = map (\<lambda>w. rows (snd w)) (written st) @
              [UsersTable u, TimeTable t, SongplaysTable p, SongsTable s, ArtistsTable a])"
proof
  assume "main c st = Done st'"
  then obtain logs :: "(int option) log_record list" and df song_df where
    "written st' = written st @
       [(''analytics/user_table_parquet'',
         \<lparr>partitionBy = [],
          rows = UsersTable (user_table (create_spark_session c) (nextsong logs))\<rparr>),
        (''analytics/time_table_parquet'',
         \<lparr>partitionBy = [], rows = TimeTable (time_table df)\<rparr>),
        (''analytics/songplay_table_parquet'',
         \<lparr>partitionBy = [''year'', ''month''],
          rows = SongplaysTable (songplays_table (create_spark_session c) df song_df)\<rparr>),
        (''analytics/songs_table_parquet'',
         \<lparr>partitionBy = [''artist_id'', ''year''],
          rows = SongsTable (songs_table (create_spark_session c) song_df)\<rparr>),
        (''analytics/artist_table_parquet'',
         \<lparr>partitionBy = [],
          rows = ArtistsTable (artists_table (create_spark_session c) song_df)\<rparr>)]"
    by (rule main_Done)
  then show "map (\<lambda>w. (fst w, partitionBy (snd w))) (written st')
       = map (\<lambda>w. (fst w, partitionBy (snd w))) (written st) @
         [(''analytics/user_table_parquet'', []),
          (''analytics/time_table_parquet'', []),
          (''analytics/songplay_table_parquet'', [''year'', ''month'']),
          (''analytics/songs_table_parquet'', [''artist_id'', ''year'']),
          (''analytics/artist_table_parquet'', [])]
     \<and> (\<exists>u t p s a. map (\<lambda>w. rows (snd w)) (written st')
            = map (\<lambda>w. rows (snd w)) (written st) @
              [UsersTable u, TimeTable t, SongplaysTable p, SongsTable s, ArtistsTable a])"
    by simp
qed

theorem partitioning_of_outputs_witness:
  "fst (result (main utc_cluster example_store)) = None
   \<and> map (\<lambda>w. (fst w, partitionBy (snd w))) (snd (result (main utc_cluster example_store)))
       = [(''analytics/user_table_parquet'', []),
          (''analytics/time_table_parquet'', []),
          (''analytics/songplay_table_parquet'', [''year'', ''month'']),
          (''analytics/songs_table_parquet'', [''artist_id'', ''year'']),
          (''analytics/artist_table_parquet'', [])]"
proof -
  obtain st' where d: "main utc_cluster example_store = Done st'"
    using example_run by (cases "main utc_cluster example_store") (simp_all add: result_def)
  have "written example_store = []" by (simp add: example_store_def)
  with partitioning_of_outputs [of utc_cluster example_store st'] d
  show ?thesis by (simp add: result_def)
qed

section \<open>Order of the transforms and errors\<close>

text \<open>
  C8: \<^verbatim>\<open>main\<close> creates one session and runs the log transform first and the song
  transform second with it. An exception of the log transform is the outcome of
  \<^verbatim>\<open>main\<close>: the store is left as the log transform left it, with at most the users and
  time tables written, so the song transform is not attempted, and nothing is retried.
  When the log transform ends normally the outcome of \<^verbatim>\<open>main\<close> is that of the song
  transform, exception included. An exception makes the exit status 1.
\<close>

theorem errors_are_fatal:
  "(process_log_data (create_spark_session c) ''s3a://udacity-dend/'' ''analytics'' st
      = Raised e st' \<longrightarrow>
      main c st = Raised e st' \<and> exit_status (main c st) = 1
      \<and> set (map fst (written st')) \<subseteq> set (map fst (written st))
           \<union> {''analytics/user_table_parquet'', ''analytics/time_table_parquet''})
   \<and> (process_log_data (create_spark_session c) ''s3a://udacity-dend/'' ''analytics'' st
      = Done st' \<longrightarrow>
      main c st
        = process_song_data (create_spark_session c) ''s3a://udacity-dend/'' ''analytics'' st')
   \<and> (main c st = Raised e st' \<longrightarrow> exit_status (main c st) = 1)
   \<and> (main c st = Done st' \<longrightarrow> exit_status (main c st) = 0)"
proof (intro conjI impI)
  assume r: "process_log_data (create_spark_session c) ''s3a://udacity-dend/'' ''analytics'' st
      = Raised e st'"
  then show m: "main c st = Raised e st'" by (simp add: main_def)
  show "exit_status (main c st) = 1" unfolding m by (simp add: exit_status_def)
  from process_log_data_Raised [OF r]
  show "set (map fst (written st')) \<subseteq> set (map fst (written st))
           \<union> {''analytics/user_table_parquet'', ''analytics/time_table_parquet''}"
    by (simp add: paths)
next
  assume "process_log_data (create_spark_session c) ''s3a://udacity-dend/'' ''analytics'' st
      = Done st'"
  then show "main c st
        = process_song_data (create_spark_session c) ''s3a://udacity-dend/'' ''analytics'' st'"
    by (simp add: main_def)
qed (simp_all add: exit_status_def)

theorem errors_are_fatal_witness:
  "fst (result (main utc_cluster (example_store\<lparr>json_songs := []\<rparr>)))
     = Some (AnalysisException ''Path does not exist'')
   \<and> exit_status (main utc_cluster (example_store\<lparr>json_songs := []\<rparr>)) = 1
   \<and> ''analytics/songs_table_parquet''
       \<notin> set (map fst (snd (result (main utc_cluster (example_store\<lparr>json_songs := []\<rparr>)))))
   \<and> (\<exists>st1. process_log_data (create_spark_session utc_cluster) ''s3a://udacity-dend/''
               ''analytics'' example_store = Done st1
            \<and> main utc_cluster example_store
                = process_song_data (create_spark_session utc_cluster) ''s3a://udacity-dend/''
                    ''analytics'' st1)
   \<and> exit_status (main utc_cluster example_store) = 0"
proof -
  let ?bad = "example_store\<lparr>json_songs := []\<rparr>"
  let ?sp = "create_spark_session utc_cluster"
  obtain st' where r: "process_log_data ?sp ''s3a://udacity-dend/'' ''analytics'' ?bad
      = Raised (AnalysisException ''Path does not exist'') st'"
    using failing_run
    by (cases "process_log_data ?sp ''s3a://udacity-dend/'' ''analytics'' ?bad")
       (simp_all add: result_def)
  have w: "written ?bad = []" by (simp add: example_store_def)
  from errors_are_fatal [of utc_cluster ?bad "AnalysisException ''Path does not exist''" st'] r w
  have 1: "main utc_cluster ?bad = Raised (AnalysisException ''Path does not exist'') st'"
    "exit_status (main utc_cluster ?bad) = 1"
    "set (map fst (written st'))
       \<subseteq> {''analytics/user_table_parquet'', ''analytics/time_table_parquet''}"
    by simp_all
  have 2: "''analytics/songs_table_parquet'' \<notin> set (map fst (written st'))"
    using 1(3) by auto
  obtain st1 where d: "process_log_data ?sp ''s3a://udacity-dend/'' ''analytics'' example_store
      = Done st1"
    using log_run
    by (cases "process_log_data ?sp ''s3a://udacity-dend/'' ''analytics'' example_store")
       (simp_all add: result_def)
  obtain st2 where d2: "main utc_cluster example_store = Done st2"
    using example_run by (cases "main utc_cluster example_store") (simp_all add: result_def)
  from errors_are_fatal [of utc_cluster example_store _ st1] d
  have 3: "main utc_cluster example_store
            = process_song_data ?sp ''s3a://udacity-dend/'' ''analytics'' st1" by simp
  from errors_are_fatal [of utc_cluster example_store _ st2] d2
  have 4: "exit_status (main utc_cluster example_store) = 0" by simp
  show ?thesis using 1(1,2) 2 d 3 4 by (simp add: result_def)
qed

section \<open>Records of other pages\<close>

lemma map_of_map_values:
  "map_of (map (\<lambda>(p, df). (p, f df)) xs) k = map_option f (map_of xs k)"
  by (induction xs) auto

lemma load_logs_nextsong:
  "load_logs (st\<lparr>json_logs := map (\<lambda>(p, df). (p, nextsong df)) (json_logs st)\<rparr>) p
     = map_sum id nextsong (load_logs st p)"
  by (simp add: load_logs_def map_of_map_values split: option.splits)

lemma load_songs_json_logs: "load_songs (st\<lparr>json_logs := j\<rparr>) p = load_songs st p"
  by (simp add: load_songs_def)

lemma write_parquet_json_logs:
  "write_parquet cols p df (st\<lparr>json_logs := j\<rparr>)
     = map_sum id (\<lambda>s. s\<lparr>json_logs := j\<rparr>) (write_parquet cols p df st)"
  by (simp add: write_parquet_def split: sum.splits)

lemma result_process_log_data_nextsong:
  "result (process_log_data spark input_data output_data
             (st\<lparr>json_logs := map (\<lambda>(p, df). (p, nextsong df)) (json_logs st)\<rparr>))
     = result (process_log_data spark input_data output_data st)"
proof -
  let ?j = "map (\<lambda>(p, df). (p, nextsong df)) (json_logs st)"
  have "process_log_data spark input_data output_data (st\<lparr>json_logs := ?j\<rparr>)
          = (case process_log_data spark input_data output_data st of
               Done s \<Rightarrow> Done (s\<lparr>json_logs := ?j\<rparr>)
             | Raised e s \<Rightarrow> Raised e (s\<lparr>json_logs := ?j\<rparr>))"
    unfolding process_log_data_def Let_def load_logs_nextsong
    by (cases "load_logs st (path_join input_data ''log_data/*/*'')")
       (auto simp: nextsong_idem write_parquet_json_logs load_songs_json_logs
          split: sum.splits)
  then show ?thesis by (simp add: result_def split: outcome.splits)
qed


lemma list_all2_source:
  assumes "list_all2 P xs ys" "y \<in> set ys"
  obtains x where "x \<in> set xs" "P x y"
  using assms by (induction rule: list_all2_induct) auto

text \<open>
  C3: a log record whose page is not NextSong (or is null) leaves no row in the users,
  time and songplays tables. Removing all such records from the log datasets changes
  neither the exception nor any dataset that the log transform writes; and every row of
  the three tables is derived from a log record whose page is NextSong: a users row is
  its projection, a time or songplays row carries its converted \<^verbatim>\<open>ts\<close>, and a songplays
  row its user, level, session, location and user agent.
\<close>

theorem other_pages_leave_no_rows:
  "result (process_log_data spark input_data output_data
             (st\<lparr>json_logs := map (\<lambda>(p, df). (p, nextsong df)) (json_logs st)\<rparr>))
     = result (process_log_data spark input_data output_data st)
   \<and> (\<forall>u \<in> set (user_table spark (nextsong logs)).
         \<exists>r \<in> set logs. page r = Some ''NextSong'' \<and> u = select_user_columns r)
   \<and> (with_start_time spark (nextsong logs) = Inr df \<longrightarrow>
        (\<forall>t \<in> set (time_table df).
           \<exists>r \<in> set logs. page r = Some ''NextSong''
             \<and> get_timestamp (tz (engine spark)) (ts r) = Inr (t_start_time t))
        \<and> (\<forall>p \<in> set (songplays_table spark df (song_df :: 'd song_record list)).
           \<exists>r \<in> set logs. page r = Some ''NextSong''
             \<and> get_timestamp (tz (engine spark)) (ts r) = Inr (sp_start_time p)
             \<and> sp_userId p = userId r \<and> sp_level p = level r \<and> sp_sessionId p = sessionId r
             \<and> sp_location p = location r \<and> sp_userAgent p = userAgent r))"
proof (intro conjI impI ballI)
  show "result (process_log_data spark input_data output_data
             (st\<lparr>json_logs := map (\<lambda>(p, df). (p, nextsong df)) (json_logs st)\<rparr>))
     = result (process_log_data spark input_data output_data st)"
    by (rule result_process_log_data_nextsong)
next
  fix u assume "u \<in> set (user_table spark (nextsong logs))"
  then have "u \<in> select_user_columns ` set (nextsong logs)"
    unfolding user_table_def Let_def
    using dedup_subset [of u_userId _ "map select_user_columns (nextsong logs)"] by auto
  then show "\<exists>r \<in> set logs. page r = Some ''NextSong'' \<and> u = select_user_columns r"
    by (auto simp: nextsong_iff)
next
  fix t
  assume w: "with_start_time spark (nextsong logs) = Inr df" and "t \<in> set (time_table df)"
  then obtain l where l: "l \<in> set df" "t_start_time t = start_time l"
    by (auto simp: time_table_def)
  from with_start_time_Inr [OF w] l(1) obtain r
    where r: "r \<in> set (nextsong logs)" "converted (tz (engine spark)) r l"
    by (rule list_all2_source)
  then show "\<exists>r \<in> set logs. page r = Some ''NextSong''
             \<and> get_timestamp (tz (engine spark)) (ts r) = Inr (t_start_time t)"
    using l(2) by (auto simp: nextsong_iff converted_def)
next
  fix p
  assume w: "with_start_time spark (nextsong logs) = Inr df"
    and "p \<in> set (songplays_table spark df song_df)"
  then obtain l and s :: "'d song_record" and i
    where j: "(l, s) \<in> set (join_df (\<lambda>l s. sql_eq (song l) (title s)) df song_df)"
      and p: "p = select_songplay_columns (l, s) i"
    by (auto elim: songplays_table_row)
  from j have "l \<in> set df" by (simp add: join_df_set)
  with with_start_time_Inr [OF w] obtain r
    where r: "r \<in> set (nextsong logs)" "converted (tz (engine spark)) r l"
    by (rule list_all2_source)
  then show "\<exists>r \<in> set logs. page r = Some ''NextSong''
             \<and> get_timestamp (tz (engine spark)) (ts r) = Inr (sp_start_time p)
             \<and> sp_userId p = userId r \<and> sp_level p = level r \<and> sp_sessionId p = sessionId r
             \<and> sp_location p = location r \<and> sp_userAgent p = userAgent r"
    by (auto simp: nextsong_iff converted_def p select_songplay_columns_def)
qed

theorem other_pages_leave_no_rows_witness:
  "result (process_log_data (create_spark_session utc_cluster) ''s3a://udacity-dend/'' ''analytics''
      (example_store\<lparr>json_logs :=
         [(''s3a://udacity-dend/log_data/*/*'',
           [log_event ''NextSong'' (Some ''26'') (Some ''Setanta matins'') (Some 1542241826796)])]\<rparr>))
     = result (process_log_data (create_spark_session utc_cluster) ''s3a://udacity-dend/''
         ''analytics'' example_store)
   \<and> user_table (create_spark_session utc_cluster)
        (nextsong [log_event ''NextSong'' (Some ''26'') (Some ''Setanta matins'') (Some 1542241826796),
                   log_event ''Home'' (Some ''27'') None None])
       = [select_user_columns
            (log_event ''NextSong'' (Some ''26'') (Some ''Setanta matins'') (Some (1542241826796::int)))]
   \<and> with_start_time (create_spark_session utc_cluster)
        (nextsong [log_event ''NextSong'' (Some ''26'') (Some ''Setanta matins'') (Some 1542241826796),
                   log_event ''Home'' (Some ''27'') None None])
       = Inr [log_event ''NextSong'' (Some ''26'') (Some ''Setanta matins'') nov15]
   \<and> (\<exists>r \<in> set [log_event ''NextSong'' (Some ''26'') (Some ''Setanta matins'') (Some 1542241826796),
                  log_event ''Home'' (Some ''27'') None None].
         page r = Some ''NextSong'' \<and> userId r = Some ''26''
         \<and> get_timestamp 0 (ts r) = Inr nov15)
   \<and> map sp_userId (songplays_table (create_spark_session utc_cluster)
        [log_event ''NextSong'' (Some ''26'') (Some ''Setanta matins'') nov15]
        [song_meta (Some ''SOZCTXZ12AB0182364'') (Some ''Setanta matins'')
           (Some ''AR5KOSW1187FB35FF4'')]) = [Some ''26'']"
proof -
  let ?sp = "create_spark_session utc_cluster"
  let ?logs = "[log_event ''NextSong'' (Some ''26'') (Some ''Setanta matins'') (Some 1542241826796),
                log_event ''Home'' (Some ''27'') None None]"
  let ?df = "[log_event ''NextSong'' (Some ''26'') (Some ''Setanta matins'') nov15]"
  let ?songs = "[song_meta (Some ''SOZCTXZ12AB0182364'') (Some ''Setanta matins'')
                   (Some ''AR5KOSW1187FB35FF4'')]"
  have n: "nextsong ?logs
             = [log_event ''NextSong'' (Some ''26'') (Some ''Setanta matins'') (Some 1542241826796)]"
    by (simp add: nextsong_def sql_eq_def log_event_def)
  have j: "map (\<lambda>(p, df). (p, nextsong df)) (json_logs example_store)
            = [(''s3a://udacity-dend/log_data/*/*'',
                [log_event ''NextSong'' (Some ''26'') (Some ''Setanta matins'') (Some 1542241826796)])]"
    using n by (simp add: example_store_def)
  have w: "with_start_time ?sp (nextsong ?logs) = Inr ?df"
    unfolding n
    by (simp add: with_start_time_Cons with_start_time_Nil create_spark_session_def
        utc_cluster_def log_event_def get_timestamp_nov15 withColumn_ts_def)
  have u: "user_table ?sp (nextsong ?logs)
            = [select_user_columns
                 (log_event ''NextSong'' (Some ''26'') (Some ''Setanta matins'') (Some (1542241826796::int)))]"
    unfolding n by (simp add: user_table_def dropDuplicates_def dropna_def select_user_columns_def
        log_event_def create_spark_session_def utc_cluster_def)
  have p: "map sp_userId (songplays_table ?sp ?df ?songs) = [Some ''26'']"
    "map sp_start_time (songplays_table ?sp ?df ?songs) = [nov15]"
    by (simp_all add: songplays_example)
  note c = other_pages_leave_no_rows [where spark = ?sp and input_data = "''s3a://udacity-dend/''"
      and output_data = "''analytics''" and st = example_store and logs = ?logs and df = ?df
      and song_df = ?songs]
  have 1: "result (process_log_data ?sp ''s3a://udacity-dend/'' ''analytics''
      (example_store\<lparr>json_logs :=
         [(''s3a://udacity-dend/log_data/*/*'',
           [log_event ''NextSong'' (Some ''26'') (Some ''Setanta matins'') (Some 1542241826796)])]\<rparr>))
     = result (process_log_data ?sp ''s3a://udacity-dend/'' ''analytics'' example_store)"
    using c unfolding j by blast
  have "songplays_table ?sp ?df ?songs \<noteq> []" using p(1) by auto
  then have "hd (songplays_table ?sp ?df ?songs) \<in> set (songplays_table ?sp ?df ?songs)"
    by simp
  with c w have e: "\<exists>r \<in> set ?logs. page r = Some ''NextSong''
       \<and> get_timestamp (tz (engine ?sp)) (ts r)
           = Inr (sp_start_time (hd (songplays_table ?sp ?df ?songs)))
       \<and> sp_userId (hd (songplays_table ?sp ?df ?songs)) = userId r"
    by blast
  have h: "sp_start_time (hd (songplays_table ?sp ?df ?songs)) = nov15"
    "sp_userId (hd (songplays_table ?sp ?df ?songs)) = Some ''26''"
    by (simp_all add: songplays_example)
  have z: "tz (engine ?sp) = 0" by (simp add: create_spark_session_def utc_cluster_def)
  from e [unfolded h z] have 2: "\<exists>r \<in> set ?logs. page r = Some ''NextSong''
       \<and> userId r = Some ''26'' \<and> get_timestamp 0 (ts r) = Inr nov15"
    by metis
  show ?thesis using 1 u w 2 p(1) by blast
qed

end
